theory Spec2Isabelle
  imports Main
begin

section \<open>Authentication core of the quote service\<close>

text \<open>
  The development embeds \<^verbatim>\<open>src/utils/jwt.ts\<close>, \<^verbatim>\<open>src/utils/password.ts\<close>,
  \<^verbatim>\<open>src/services/user.service.ts\<close> and the \<^verbatim>\<open>AuthService\<close> class as HOL functions.
  JavaScript strings are \<open>string\<close>; \<open>undefined\<close> and \<open>null\<close> are \<open>None\<close>; a thrown
  \<^verbatim>\<open>Error\<close> is the left injection of a sum. Counters and generations are JavaScript
  numbers that start at 0 and grow by 1; they are modelled as \<open>int\<close>, exact for them as
  long as they stay below \<open>2^53\<close>. An asynchronous method is a function from the state
  of the world (collection, revocation registry, log) to its result and the new state;
  the clock reading of the call is an argument.
\<close>

subsection \<open>Bearer header parsing (\<^verbatim>\<open>JWTUtils.extractTokenFromHeader\<close>)\<close>

text \<open>
  \<^verbatim>\<open>String.prototype.split(" ")\<close>: the string is cut at every single space, consecutive
  spaces give empty parts, and a string without a space gives one part. The second case
  alternative below is never reached, since the result of the function is never empty.
\<close>

fun split_space :: "string \<Rightarrow> string list" where
  "split_space [] = [[]]"
| "split_space (c # cs) =
     (if c = CHR '' '' then [] # split_space cs
      else (case split_space cs of p # ps \<Rightarrow> (c # p) # ps | [] \<Rightarrow> [[c]]))"

definition extractTokenFromHeader :: "string option \<Rightarrow> string option" where
  "extractTokenFromHeader authHeader =
     (case authHeader of
        None \<Rightarrow> None
      | Some h \<Rightarrow>
          if h = [] then None
          else let parts = split_space h in
            if length parts \<noteq> 2 \<or> parts ! 0 \<noteq> ''Bearer'' then None
            else Some (parts ! 1))"

subsection \<open>Password strength (\<^verbatim>\<open>PasswordUtils.validatePasswordStrength\<close>)\<close>

text \<open>The character classes of the regular expressions, on character codes.\<close>

definition is_lower :: "char \<Rightarrow> bool" where
  "is_lower c = (97 \<le> (of_char c :: nat) \<and> (of_char c :: nat) \<le> 122)"

definition is_upper :: "char \<Rightarrow> bool" where
  "is_upper c = (65 \<le> (of_char c :: nat) \<and> (of_char c :: nat) \<le> 90)"

definition is_digit :: "char \<Rightarrow> bool" where
  "is_digit c = (48 \<le> (of_char c :: nat) \<and> (of_char c :: nat) \<le> 57)"

definition is_special :: "char \<Rightarrow> bool" where
  "is_special c = (c \<in> set ''@$!%*?&'')"

text \<open>
  \<^verbatim>\<open>/(.)\1{2,}/\<close>: some character other than a line terminator, followed by itself at
  least twice. Of the line terminators only line feed and carriage return are 8-bit
  characters.
\<close>

definition is_line_terminator :: "char \<Rightarrow> bool" where
  "is_line_terminator c = (c = CHR 0x0A \<or> c = CHR 0x0D)"

fun has_repeated :: "string \<Rightarrow> bool" where
  "has_repeated (a # b # c # cs) =
     ((a = b \<and> b = c \<and> \<not> is_line_terminator a) \<or> has_repeated (b # c # cs))"
| "has_repeated _ = False"

record strength =
  isValid :: bool
  score :: nat
  feedback :: "string list"

text \<open>One \<^verbatim>\<open>if (test) score += 1; else feedback.push(msg)\<close> statement.\<close>

definition criterion :: "bool \<Rightarrow> string \<Rightarrow> nat \<times> string list \<Rightarrow> nat \<times> string list" where
  "criterion ok msg acc =
     (case acc of (sc, fb) \<Rightarrow> if ok then (sc + 1, fb) else (sc, fb @ [msg]))"

text \<open>The statement without an else branch: \<^verbatim>\<open>if (password.length >= 12) score += 1\<close>.\<close>

definition bonus :: "bool \<Rightarrow> nat \<times> string list \<Rightarrow> nat \<times> string list" where
  "bonus ok acc = (case acc of (sc, fb) \<Rightarrow> if ok then (sc + 1, fb) else (sc, fb))"

definition validatePasswordStrength :: "string \<Rightarrow> strength" where
  "validatePasswordStrength password =
     (let s0 = (0, []);
          s1 = criterion (8 \<le> length password)
                 ''Password should be at least 8 characters long'' s0;
          s2 = bonus (12 \<le> length password) s1;
          s3 = criterion (\<exists>c \<in> set password. is_lower c)
                 ''Password should contain lowercase letters'' s2;
          s4 = criterion (\<exists>c \<in> set password. is_upper c)
                 ''Password should contain uppercase letters'' s3;
          s5 = criterion (\<exists>c \<in> set password. is_digit c)
                 ''Password should contain numbers'' s4;
          s6 = criterion (\<exists>c \<in> set password. is_special c)
                 ''Password should contain special characters'' s5;
          s7 = criterion (\<not> has_repeated password)
                 ''Password should not contain repeated characters'' s6
      in \<lparr>isValid = 5 \<le> fst s7, score = fst s7, feedback = snd s7\<rparr>)"

subsection \<open>Errors, time and configuration\<close>

text \<open>A thrown JavaScript \<^verbatim>\<open>Error\<close> with its message.\<close>

datatype error = Error string

text \<open>\<^verbatim>\<open>Date.now()\<close>: milliseconds since the epoch. Each operation reads the clock once.\<close>

type_synonym timestamp = nat

text \<open>The four variables of \<^verbatim>\<open>process.env\<close> that \<^verbatim>\<open>JWTUtils\<close> reads.\<close>

record env =
  JWT_ACCESS_SECRET :: "string option"
  JWT_REFRESH_SECRET :: "string option"
  JWT_ACCESS_EXPIRY :: "string option"
  JWT_REFRESH_EXPIRY :: "string option"

text \<open>\<^verbatim>\<open>v || d\<close> on an optional string: \<open>undefined\<close> and the empty string are falsy.\<close>

definition or_default :: "string option \<Rightarrow> string \<Rightarrow> string" where
  "or_default v d = (case v of None \<Rightarrow> d | Some s \<Rightarrow> if s = [] then d else s)"

definition ACCESS_TOKEN_SECRET :: "env \<Rightarrow> string" where
  "ACCESS_TOKEN_SECRET e = or_default (JWT_ACCESS_SECRET e) ''your-super-secret-access-key''"

definition REFRESH_TOKEN_SECRET :: "env \<Rightarrow> string" where
  "REFRESH_TOKEN_SECRET e = or_default (JWT_REFRESH_SECRET e) ''your-super-secret-refresh-key''"

definition ACCESS_TOKEN_EXPIRY :: "env \<Rightarrow> string" where
  "ACCESS_TOKEN_EXPIRY e = or_default (JWT_ACCESS_EXPIRY e) ''15m''"

definition REFRESH_TOKEN_EXPIRY :: "env \<Rightarrow> string" where
  "REFRESH_TOKEN_EXPIRY e = or_default (JWT_REFRESH_EXPIRY e) ''7d''"

subsection \<open>The \<^verbatim>\<open>jsonwebtoken\<close> library\<close>

text \<open>
  The payload object of a token. \<^verbatim>\<open>TokenPayload\<close> and \<^verbatim>\<open>RefreshTokenPayload\<close> are
  TypeScript interfaces on such objects and \<^verbatim>\<open>as TokenPayload\<close> is a cast without a
  check, so one record with optional fields stands for every payload at run time. Both
  interfaces require \<open>userId\<close>; \<open>iat\<close> and \<open>exp\<close> are in seconds.
\<close>

record JwtPayload =
  userId :: string
  email :: "string option"
  role :: "string option"
  tokenVersion :: "int option"
  iat :: "nat option"
  exp :: "nat option"
  iss :: "string option"
  aud :: "string option"

text \<open>
  The library is a dependency of the service, not part of its source; \<open>jwt_sign\<close> and
  \<open>jwt_verify\<close> below follow its documented behaviour for the options that the
  service passes.

  A token string, symbolically: \<open>Jwt k p\<close> is the compact serialisation of the payload
  \<open>p\<close> with an HS256 signature computed under the key \<open>k\<close>; \<open>NotJwt s\<close> is any other
  string. The signature of \<open>Jwt k p\<close> verifies under a secret exactly when the secret is
  \<open>k\<close> (a MAC without forgeries or collisions).
\<close>

datatype token = NotJwt string | Jwt string JwtPayload

text \<open>
  The options the two library calls take: \<open>issuer\<close> and \<open>audience\<close> are options of
  both, \<open>expiresIn\<close> (in seconds) of \<^verbatim>\<open>jwt.sign\<close> only.
\<close>

record VerifyOptions =
  issuer :: "string option"
  audience :: "string option"

record SignOptions = VerifyOptions +
  expiresIn :: "nat option"

text \<open>
  \<^verbatim>\<open>jwt.sign(payload, secret, options)\<close> at clock \<open>now\<close>: stamps \<open>iat\<close> with the
  clock in seconds, sets \<open>exp = iat + expiresIn\<close> only when the option \<open>expiresIn\<close> is
  passed, and writes the issuer and the audience that the options give.
\<close>

definition jwt_sign :: "timestamp \<Rightarrow> JwtPayload \<Rightarrow> string \<Rightarrow> SignOptions \<Rightarrow> token" where
  "jwt_sign now payload secret options =
     (let timestamp = now div 1000 in
      Jwt secret (payload\<lparr>
        iat := Some timestamp,
        exp := (case expiresIn options of
                  None \<Rightarrow> exp payload | Some d \<Rightarrow> Some (timestamp + d)),
        iss := (case issuer options of
                  None \<Rightarrow> iss payload | Some i \<Rightarrow> Some i),
        aud := (case audience options of
                  None \<Rightarrow> aud payload | Some a \<Rightarrow> Some a)\<rparr>))"

text \<open>
  \<^verbatim>\<open>jwt.verify(token, secret, options)\<close> at clock \<open>now\<close>: the signature, then the
  expiry when the payload has an \<open>exp\<close>, then the audience and the issuer that the
  options ask for. Every failure throws.
\<close>

definition jwt_verify :: "timestamp \<Rightarrow> token \<Rightarrow> string \<Rightarrow> VerifyOptions \<Rightarrow> error + JwtPayload" where
  "jwt_verify now tok secret options =
     (case tok of
        NotJwt s \<Rightarrow> Inl (Error ''jwt malformed'')
      | Jwt k payload \<Rightarrow>
          if k \<noteq> secret then Inl (Error ''invalid signature'')
          else if (case exp payload of None \<Rightarrow> False | Some e \<Rightarrow> e \<le> now div 1000)
            then Inl (Error ''jwt expired'')
          else if (case audience options of
                     None \<Rightarrow> False | Some a \<Rightarrow> aud payload \<noteq> Some a)
            then Inl (Error ''jwt audience invalid'')
          else if (case issuer options of
                     None \<Rightarrow> False | Some i \<Rightarrow> iss payload \<noteq> Some i)
            then Inl (Error ''jwt issuer invalid'')
          else Inr payload)"

subsection \<open>\<^verbatim>\<open>JWTUtils\<close>\<close>

text \<open>The object literals \<^verbatim>\<open>{userId, email, role}\<close> and \<^verbatim>\<open>{userId, tokenVersion}\<close>.\<close>

definition tokenPayload :: "string \<Rightarrow> string \<Rightarrow> string \<Rightarrow> JwtPayload" where
  "tokenPayload u e r =
     \<lparr>userId = u, email = Some e, role = Some r, tokenVersion = None,
      iat = None, exp = None, iss = None, aud = None\<rparr>"

definition refreshTokenPayload :: "string \<Rightarrow> int \<Rightarrow> JwtPayload" where
  "refreshTokenPayload u v =
     \<lparr>userId = u, email = None, role = None, tokenVersion = Some v,
      iat = None, exp = None, iss = None, aud = None\<rparr>"

definition generateAccessToken :: "env \<Rightarrow> timestamp \<Rightarrow> JwtPayload \<Rightarrow> token" where
  "generateAccessToken e now payload =
     jwt_sign now payload (ACCESS_TOKEN_SECRET e)
       \<lparr>issuer = Some ''quote-service'', audience = Some ''quote-service-users'',
        expiresIn = None\<rparr>"

definition generateRefreshToken :: "env \<Rightarrow> timestamp \<Rightarrow> JwtPayload \<Rightarrow> token" where
  "generateRefreshToken e now payload =
     jwt_sign now payload (REFRESH_TOKEN_SECRET e)
       \<lparr>issuer = Some ''quote-service'', audience = Some ''quote-service-users'',
        expiresIn = None\<rparr>"

definition verifyAccessToken :: "env \<Rightarrow> timestamp \<Rightarrow> token \<Rightarrow> error + JwtPayload" where
  "verifyAccessToken e now tok =
     (case jwt_verify now tok (ACCESS_TOKEN_SECRET e)
             \<lparr>issuer = Some ''quote-service'', audience = Some ''quote-service-users''\<rparr> of
        Inl err \<Rightarrow> Inl (Error ''Invalid or expired access token'')
      | Inr payload \<Rightarrow> Inr payload)"

definition verifyRefreshToken :: "env \<Rightarrow> timestamp \<Rightarrow> token \<Rightarrow> error + JwtPayload" where
  "verifyRefreshToken e now tok =
     (case jwt_verify now tok (REFRESH_TOKEN_SECRET e)
             \<lparr>issuer = Some ''quote-service'', audience = Some ''quote-service-users''\<rparr> of
        Inl err \<Rightarrow> Inl (Error ''Invalid or expired refresh token'')
      | Inr payload \<Rightarrow> Inr payload)"

text \<open>
  \<^verbatim>\<open>parseInt(s)\<close> without a radix: leading white space, an optional sign, an optional
  \<^verbatim>\<open>0x\<close> prefix for base 16, then the longest run of digits; \<open>None\<close> is \<^verbatim>\<open>NaN\<close>.
\<close>

definition is_white_space :: "char \<Rightarrow> bool" where
  "is_white_space c = (c \<in> set [CHR 0x20, CHR 0x09, CHR 0x0A, CHR 0x0B, CHR 0x0C, CHR 0x0D])"

definition digit_value :: "nat \<Rightarrow> char \<Rightarrow> nat option" where
  "digit_value radix c =
     (let n = (of_char c :: nat);
          v = (if 48 \<le> n \<and> n \<le> 57 then Some (n - 48)
               else if 97 \<le> n \<and> n \<le> 122 then Some (n - 87)
               else if 65 \<le> n \<and> n \<le> 90 then Some (n - 55)
               else None)
      in case v of None \<Rightarrow> None | Some d \<Rightarrow> if d < radix then Some d else None)"

definition parseInt :: "string \<Rightarrow> int option" where
  "parseInt s =
     (let s1 = dropWhile is_white_space s;
          negative = (take 1 s1 = ''-'');
          s2 = (if take 1 s1 = ''-'' \<or> take 1 s1 = ''+'' then drop 1 s1 else s1);
          hex = (take 2 s2 = ''0x'' \<or> take 2 s2 = ''0X'');
          radix = (if hex then 16 else 10);
          s3 = (if hex then drop 2 s2 else s2);
          digits = takeWhile (\<lambda>c. digit_value radix c \<noteq> None) s3;
          magnitude = foldl (\<lambda>acc c. acc * radix + the (digit_value radix c)) 0 digits
      in if digits = [] then None
         else Some (if negative then - int magnitude else int magnitude))"

definition endsWith :: "string \<Rightarrow> string \<Rightarrow> bool" where
  "endsWith s suffix = (length suffix \<le> length s \<and> drop (length s - length suffix) s = suffix)"

definition getAccessTokenExpiryTime :: "env \<Rightarrow> int option" where
  "getAccessTokenExpiryTime e =
     (let expiry = ACCESS_TOKEN_EXPIRY e in
      if endsWith expiry ''m'' then map_option (\<lambda>n. n * 60) (parseInt expiry)
      else if endsWith expiry ''h'' then map_option (\<lambda>n. n * 60 * 60) (parseInt expiry)
      else if endsWith expiry ''d'' then map_option (\<lambda>n. n * 24 * 60 * 60) (parseInt expiry)
      else parseInt expiry)"

subsection \<open>The identity store, the revocation registry and the log\<close>

text \<open>
  The fields of a \<^verbatim>\<open>User\<close> document that the authentication core reads or writes.
  \<open>userResponse\<close> is what \<^verbatim>\<open>login\<close> returns of it, \<open>user\<close> adds the stored digest.
  (\<^verbatim>\<open>firstName\<close>, \<^verbatim>\<open>lastName\<close>, \<^verbatim>\<open>isEmailVerified\<close>, the verification and reset
  tokens, \<^verbatim>\<open>preferences\<close> and \<^verbatim>\<open>createdAt\<close> are left out: no operation below touches
  them.) A date is its \<^verbatim>\<open>getTime()\<close>; an unset or null field is \<open>None\<close>.
\<close>

record userResponse =
  id' :: string
  email :: string
  username :: string
  role :: string
  isActive :: bool
  loginAttempts :: int
  lockUntil :: "timestamp option"
  lastLoginAt :: "timestamp option"
  updatedAt :: timestamp

record user = userResponse +
  password :: string

datatype severity = Low | Medium | High | Critical

text \<open>
  What the logger receives: \<^verbatim>\<open>logger.info\<close> and \<^verbatim>\<open>logger.error\<close> with the message
  (and the user id or the error), \<^verbatim>\<open>logger.securityEvent\<close> with the event name, the
  user id and the severity.
\<close>

datatype log_entry =
    Info string "string option"
  | Failure string error
  | SecurityEvent string "string option" severity

text \<open>
  The world the services act on: the \<^verbatim>\<open>users\<close> collection in insertion order, the
  \<^verbatim>\<open>tokenVersions\<close> map of the \<^verbatim>\<open>AuthService\<close> instance, the log, and whether the
  database currently fails (\<open>Some m\<close>: every database call throws \<open>Error m\<close>).
\<close>

record state =
  users :: "user list"
  tokenVersions :: "string \<rightharpoonup> int"
  log :: "log_entry list"
  dbError :: "string option"

text \<open>An asynchronous method: it reads and writes the state and returns or throws.\<close>

type_synonym 'a action = "state \<Rightarrow> (error + 'a) \<times> state"

definition succeed :: "'a \<Rightarrow> 'a action" where
  "succeed x s = (Inr x, s)"

definition throw :: "error \<Rightarrow> 'a action" where
  "throw e s = (Inl e, s)"

definition andThen :: "'a action \<Rightarrow> ('a \<Rightarrow> 'b action) \<Rightarrow> 'b action" where
  "andThen m f s = (case m s of (Inl e, s') \<Rightarrow> (Inl e, s') | (Inr x, s') \<Rightarrow> f x s')"

definition tryCatch :: "'a action \<Rightarrow> (error \<Rightarrow> 'a action) \<Rightarrow> 'a action" where
  "tryCatch m handler s =
     (case m s of (Inl e, s') \<Rightarrow> handler e s' | (Inr x, s') \<Rightarrow> (Inr x, s'))"

definition lift :: "error + 'a \<Rightarrow> 'a action" where
  "lift r s = (r, s)"

definition logger_info :: "string \<Rightarrow> string option \<Rightarrow> unit action" where
  "logger_info message uid s = (Inr (), s\<lparr>log := log s @ [Info message uid]\<rparr>)"

definition logger_error :: "string \<Rightarrow> error \<Rightarrow> unit action" where
  "logger_error message err s = (Inr (), s\<lparr>log := log s @ [Failure message err]\<rparr>)"

definition logger_securityEvent :: "string \<Rightarrow> string option \<Rightarrow> severity \<Rightarrow> unit action" where
  "logger_securityEvent event uid sev s =
     (Inr (), s\<lparr>log := log s @ [SecurityEvent event uid sev]\<rparr>)"

subsection \<open>\<^verbatim>\<open>UserService\<close>\<close>

text \<open>
  \<^verbatim>\<open>collection.findOne(query)\<close> of the MongoDB driver: the first document that
  matches, or null; it throws when the database fails.
\<close>

definition findOne :: "(user \<Rightarrow> bool) \<Rightarrow> user option action" where
  "findOne query s =
     (case dbError s of
        Some m \<Rightarrow> (Inl (Error m), s)
      | None \<Rightarrow> (Inr (find query (users s)), s))"

definition getUserById :: "string \<Rightarrow> user option action" where
  "getUserById i = findOne (\<lambda>u. id' u = i)"

definition getUserByEmail :: "string \<Rightarrow> user option action" where
  "getUserByEmail e = findOne (\<lambda>u. email u = e)"

text \<open>
  \<^verbatim>\<open>collection.findOneAndUpdate(query, {$set: doc})\<close>: the first document that matches
  is replaced by its update.
\<close>

fun findOneAndUpdate :: "(user \<Rightarrow> bool) \<Rightarrow> (user \<Rightarrow> user) \<Rightarrow> user list \<Rightarrow> user list" where
  "findOneAndUpdate query upd [] = []"
| "findOneAndUpdate query upd (u # us) =
     (if query u then upd u # us else u # findOneAndUpdate query upd us)"

text \<open>
  \<^verbatim>\<open>updateUser(id, updateData)\<close>: the fields of \<^verbatim>\<open>updateData\<close> are set (the function
  \<open>updateData\<close> sets them; a field given as \<open>undefined\<close> is stored as null), then
  \<open>updatedAt\<close>. Returns the document after the update, or null when none matches.
\<close>

definition updateUser :: "timestamp \<Rightarrow> string \<Rightarrow> (user \<Rightarrow> user) \<Rightarrow> user option action" where
  "updateUser now i updateData s =
     (case dbError s of
        Some m \<Rightarrow> (Inl (Error m), s)
      | None \<Rightarrow>
          (case find (\<lambda>u. id' u = i) (users s) of
             None \<Rightarrow> (Inr None, s)
           | Some u \<Rightarrow>
               let result = (updateData u)\<lparr>updatedAt := now\<rparr>;
                   s' = s\<lparr>users := findOneAndUpdate (\<lambda>u. id' u = i)
                          (\<lambda>u. (updateData u)\<lparr>updatedAt := now\<rparr>) (users s)\<rparr>
               in andThen (logger_info ''User updated successfully'' (Some i)) (\<lambda>_.
                  succeed (Some result)) s'))"

definition incrementLoginAttempts :: "timestamp \<Rightarrow> string \<Rightarrow> unit action" where
  "incrementLoginAttempts now i =
     (let maxAttempts = 5; lockTime = 30 * 60 * 1000 in
      andThen (getUserById i) (\<lambda>found.
        case found of
          None \<Rightarrow> succeed ()
        | Some u \<Rightarrow>
            let attempts = loginAttempts u + 1 in
            if attempts \<ge> maxAttempts then
              andThen (logger_securityEvent ''account_locked'' (Some i) High) (\<lambda>_.
              andThen (updateUser now i
                (\<lambda>d. d\<lparr>loginAttempts := attempts, lockUntil := Some (now + lockTime)\<rparr>)) (\<lambda>_.
              succeed ()))
            else
              andThen (updateUser now i (\<lambda>d. d\<lparr>loginAttempts := attempts\<rparr>)) (\<lambda>_.
              succeed ())))"

definition resetLoginAttempts :: "timestamp \<Rightarrow> string \<Rightarrow> unit action" where
  "resetLoginAttempts now i =
     andThen (updateUser now i
       (\<lambda>d. d\<lparr>loginAttempts := 0, lockUntil := None, lastLoginAt := Some now\<rparr>)) (\<lambda>_.
     succeed ())"

definition isAccountLocked :: "timestamp \<Rightarrow> user \<Rightarrow> bool action" where
  "isAccountLocked now u =
     (case lockUntil u of
        None \<Rightarrow> succeed False
      | Some until \<Rightarrow>
          if until > now then succeed True
          else
            andThen (updateUser now (id' u)
              (\<lambda>d. d\<lparr>lockUntil := None, loginAttempts := 0\<rparr>)) (\<lambda>_.
            succeed False))"

text \<open>
  The password-hash primitive (bcrypt), a parameter: \<open>hashPassword\<close> is
  \<^verbatim>\<open>bcrypt.hash(password, 12)\<close> and \<open>comparePassword\<close> is \<^verbatim>\<open>bcrypt.compare\<close>.
\<close>

record PasswordUtils =
  hashPassword :: "string \<Rightarrow> string"
  comparePassword :: "string \<Rightarrow> string \<Rightarrow> bool"

definition changePassword ::
  "PasswordUtils \<Rightarrow> timestamp \<Rightarrow> string \<Rightarrow> string \<Rightarrow> string \<Rightarrow> bool action" where
  "changePassword pu now i currentPassword newPassword =
     andThen (getUserById i) (\<lambda>found.
       case found of
         None \<Rightarrow> succeed False
       | Some u \<Rightarrow>
           if \<not> comparePassword pu currentPassword (password u) then succeed False
           else
             andThen (updateUser now i
               (\<lambda>d. d\<lparr>password := hashPassword pu newPassword\<rparr>)) (\<lambda>_.
             andThen (logger_info ''Password changed successfully'' (Some i)) (\<lambda>_.
             succeed True)))"

subsection \<open>\<^verbatim>\<open>AuthService\<close>\<close>

text \<open>
  The result of \<^verbatim>\<open>refreshToken\<close> is \<^verbatim>\<open>{accessToken, expiresIn}\<close>; an
  \<^verbatim>\<open>AuthResponse\<close> has these two fields, the user without its sensitive fields, and
  the refresh token.
\<close>

record TokenResponse =
  accessToken :: token
  expiresIn :: "int option"

record AuthResponse = TokenResponse +
  user :: userResponse
  refreshToken :: token

text \<open>\<^verbatim>\<open>this.tokenVersions.get(userId) || 0\<close>: an absent entry and 0 both give 0.\<close>

definition getTokenVersion :: "state \<Rightarrow> string \<Rightarrow> int" where
  "getTokenVersion s i =
     (case tokenVersions s i of None \<Rightarrow> 0 | Some v \<Rightarrow> if v = 0 then 0 else v)"

text \<open>A synchronous read of the state inside an asynchronous method.\<close>

definition reading :: "(state \<Rightarrow> 'a) \<Rightarrow> 'a action" where
  "reading f s = (Inr (f s), s)"

definition incrementTokenVersion :: "string \<Rightarrow> unit action" where
  "incrementTokenVersion i s =
     (let currentVersion = getTokenVersion s i in
      (Inr (), s\<lparr>tokenVersions := (tokenVersions s)(i \<mapsto> currentVersion + 1)\<rparr>))"

definition logout :: "string \<Rightarrow> unit action" where
  "logout i =
     andThen (incrementTokenVersion i) (\<lambda>_.
     logger_info ''User logged out successfully'' (Some i))"

text \<open>
  \<^verbatim>\<open>login(credentials, ip, userAgent)\<close>, with \<^verbatim>\<open>credentials.email\<close> and
  \<^verbatim>\<open>credentials.password\<close> as two arguments; \<^verbatim>\<open>ip\<close> and \<^verbatim>\<open>userAgent\<close> only reach
  the log and are left out. \<open>login_try\<close> is the body of the \<^verbatim>\<open>try\<close> block, \<open>login\<close>
  adds the \<^verbatim>\<open>catch\<close>, which logs and rethrows.
\<close>

definition login_try ::
  "env \<Rightarrow> PasswordUtils \<Rightarrow> timestamp \<Rightarrow> string \<Rightarrow> string \<Rightarrow> AuthResponse action" where
  "login_try e pu now mail pw =
     andThen (getUserByEmail mail) (\<lambda>found.
       case found of
         None \<Rightarrow>
           andThen (logger_securityEvent ''login_attempt_invalid_email'' None Low) (\<lambda>_.
           throw (Error ''Invalid email or password''))
       | Some u \<Rightarrow>
           andThen (isAccountLocked now u) (\<lambda>isLocked.
             if isLocked then
               andThen (logger_securityEvent ''login_attempt_locked_account''
                          (Some (id' u)) Medium) (\<lambda>_.
               throw (Error
                 ''Account is temporarily locked due to too many failed login attempts''))
             else if \<not> isActive u then
               andThen (logger_securityEvent ''login_attempt_inactive_account''
                          (Some (id' u)) Medium) (\<lambda>_.
               throw (Error ''Account is deactivated''))
             else if \<not> comparePassword pu pw (password u) then
               andThen (incrementLoginAttempts now (id' u)) (\<lambda>_.
               andThen (logger_securityEvent ''login_attempt_invalid_password''
                          (Some (id' u)) Medium) (\<lambda>_.
               throw (Error ''Invalid email or password'')))
             else
               andThen (resetLoginAttempts now (id' u)) (\<lambda>_.
               andThen (reading (\<lambda>s. getTokenVersion s (id' u))) (\<lambda>version.
               andThen (logger_info ''User logged in successfully'' (Some (id' u))) (\<lambda>_.
               succeed
                 \<lparr>accessToken =
                    generateAccessToken e now (tokenPayload (id' u) (email u) (role u)),
                  expiresIn = getAccessTokenExpiryTime e,
                  user = userResponse.truncate u,
                  refreshToken =
                    generateRefreshToken e now (refreshTokenPayload (id' u) version)\<rparr>)))))"

definition login ::
  "env \<Rightarrow> PasswordUtils \<Rightarrow> timestamp \<Rightarrow> string \<Rightarrow> string \<Rightarrow> AuthResponse action" where
  "login e pu now mail pw =
     tryCatch (login_try e pu now mail pw) (\<lambda>err.
       andThen (logger_error ''Login failed'' err) (\<lambda>_.
       throw err))"

text \<open>
  \<^verbatim>\<open>refreshToken(refreshToken)\<close>: every error of the \<^verbatim>\<open>try\<close> block is logged and
  replaced by the one error \<^verbatim>\<open>Invalid refresh token\<close>.
\<close>

definition refreshToken_try :: "env \<Rightarrow> timestamp \<Rightarrow> token \<Rightarrow> TokenResponse action" where
  "refreshToken_try e now tok =
     andThen (lift (verifyRefreshToken e now tok)) (\<lambda>payload.
     andThen (reading (\<lambda>s. getTokenVersion s (userId payload))) (\<lambda>currentVersion.
       if tokenVersion payload \<noteq> Some currentVersion then
         throw (Error ''Token version mismatch'')
       else
         andThen (getUserById (userId payload)) (\<lambda>found.
           case found of
             None \<Rightarrow> throw (Error ''User not found or inactive'')
           | Some u \<Rightarrow>
               if \<not> isActive u then throw (Error ''User not found or inactive'')
               else
                 andThen (logger_info ''Token refreshed successfully'' (Some (id' u))) (\<lambda>_.
                 succeed
                   \<lparr>accessToken =
                      generateAccessToken e now (tokenPayload (id' u) (email u) (role u)),
                    expiresIn = getAccessTokenExpiryTime e\<rparr>))))"

definition refreshToken :: "env \<Rightarrow> timestamp \<Rightarrow> token \<Rightarrow> TokenResponse action" where
  "refreshToken e now tok =
     tryCatch (refreshToken_try e now tok) (\<lambda>err.
       andThen (logger_error ''Token refresh failed'' err) (\<lambda>_.
       throw (Error ''Invalid refresh token'')))"

text \<open>
  \<^verbatim>\<open>validateAccessToken(token)\<close>: the \<^verbatim>\<open>catch\<close> turns every error of the
  verification and of the lookup into \<^verbatim>\<open>null\<close>.
\<close>

definition validateAccessToken :: "env \<Rightarrow> timestamp \<Rightarrow> token \<Rightarrow> JwtPayload option action" where
  "validateAccessToken e now tok =
     tryCatch
       (andThen (lift (verifyAccessToken e now tok)) (\<lambda>payload.
        andThen (getUserById (userId payload)) (\<lambda>found.
          case found of
            None \<Rightarrow> succeed None
          | Some u \<Rightarrow> if \<not> isActive u then succeed None else succeed (Some payload))))
       (\<lambda>err. succeed None)"

subsection \<open>Notions used to state the properties\<close>

text \<open>
  \<open>stored s u\<close>: the database answers, and \<open>u\<close> is the document it returns both for
  the email of \<open>u\<close> and for the id of \<open>u\<close>. The unique indexes on \<^verbatim>\<open>email\<close> and
  \<^verbatim>\<open>id\<close> give this for every document of the collection.
\<close>

definition stored :: "state \<Rightarrow> user \<Rightarrow> bool" where
  "stored s u =
     (getUserByEmail (email u) s = (Inr (Some u), s) \<and>
      getUserById (id' u) s = (Inr (Some u), s))"

text \<open>
  The lock window of a document is active at a clock reading: \<^verbatim>\<open>lockUntil\<close> is set and
  lies after it (the test \<^verbatim>\<open>user.lockUntil > new Date()\<close>).
\<close>

definition lock_active :: "timestamp \<Rightarrow> user \<Rightarrow> bool" where
  "lock_active now u = (case lockUntil u of None \<Rightarrow> False | Some until \<Rightarrow> now < until)"

text \<open>
  The state after a sequence of login attempts with one email, each attempt with its own
  clock reading and password.
\<close>

fun login_attempts ::
  "env \<Rightarrow> PasswordUtils \<Rightarrow> string \<Rightarrow> (timestamp \<times> string) list \<Rightarrow> state \<Rightarrow> state" where
  "login_attempts e pu mail [] s = s"
| "login_attempts e pu mail ((now, pw) # rest) s =
     login_attempts e pu mail rest (snd (login e pu now mail pw s))"

text \<open>The process started without any of the four environment variables.\<close>

definition default_env :: env where
  "default_env =
     \<lparr>JWT_ACCESS_SECRET = None, JWT_REFRESH_SECRET = None,
      JWT_ACCESS_EXPIRY = None, JWT_REFRESH_EXPIRY = None\<rparr>"

subsection \<open>Example data\<close>

text \<open>
  A store with one active, unlocked identity, and a stand-in for the hash primitive
  that accepts a password exactly for the digest made from it.
\<close>

definition alice :: user where
  "alice =
     \<lparr>id' = ''u1'', email = ''alice@x.com'', username = ''alice'', role = ''user'',
      isActive = True, loginAttempts = 0, lockUntil = None, lastLoginAt = None,
      updatedAt = 0, password = ''digest:correct horse''\<rparr>"

definition example_hasher :: PasswordUtils where
  "example_hasher =
     \<lparr>hashPassword = (\<lambda>p. ''digest:'' @ p),
      comparePassword = (\<lambda>p h. h = ''digest:'' @ p)\<rparr>"

definition example_state :: state where
  "example_state = \<lparr>users = [alice], tokenVersions = Map.empty, log = [], dbError = None\<rparr>"

section \<open>Properties\<close>

subsection \<open>Bearer header parsing\<close>

lemma split_space_nonempty: "split_space s \<noteq> []"
  by (induction s) (auto split: list.splits)

lemma split_space_append:
  "CHR '' '' \<notin> set p \<Longrightarrow> split_space (p @ CHR '' '' # r) = p # split_space r"
  by (induction p) auto

lemma split_space_no_space: "CHR '' '' \<notin> set p \<Longrightarrow> split_space p = [p]"
  by (induction p) auto

lemma split_space_Cons:
  "split_space s = p # ps \<Longrightarrow>
     CHR '' '' \<notin> set p \<and>
     (if ps = [] then s = p else \<exists>r. s = p @ CHR '' '' # r \<and> split_space r = ps)"
proof (induction s arbitrary: p ps)
  case Nil
  then show ?case by simp
next
  case (Cons c cs)
  show ?case
  proof (cases "c = CHR '' ''")
    case True
    with Cons.prems show ?thesis by (auto simp: split_space_nonempty)
  next
    case False
    obtain q qs where q: "split_space cs = q # qs"
      using split_space_nonempty [of cs] by (cases "split_space cs") auto
    from Cons.IH [OF q] False Cons.prems q show ?thesis
      by (auto split: if_splits)
  qed
qed

lemma split_space_two:
  "split_space s = [p, q] \<longleftrightarrow>
     s = p @ CHR '' '' # q \<and> CHR '' '' \<notin> set p \<and> CHR '' '' \<notin> set q"
proof
  assume two: "split_space s = [p, q]"
  from split_space_Cons [OF two] obtain r
    where r: "CHR '' '' \<notin> set p" "s = p @ CHR '' '' # r" "split_space r = [q]"
    by auto
  from split_space_Cons [OF r(3)] r
  show "s = p @ CHR '' '' # q \<and> CHR '' '' \<notin> set p \<and> CHR '' '' \<notin> set q"
    by auto
next
  assume "s = p @ CHR '' '' # q \<and> CHR '' '' \<notin> set p \<and> CHR '' '' \<notin> set q"
  then show "split_space s = [p, q]"
    by (simp add: split_space_append split_space_no_space)
qed

lemma length_two: "length xs = 2 \<longleftrightarrow> (\<exists>a b. xs = [a, b])"
  by (cases xs; cases "tl xs") auto

lemma extract_Some_iff:
  "extractTokenFromHeader h = Some t \<longleftrightarrow>
     (\<exists>s. h = Some s \<and> split_space s = [''Bearer'', t])"
  by (cases h) (auto simp: extractTokenFromHeader_def Let_def length_two split: if_splits)

text \<open>
  Claim C8. \<open>extractTokenFromHeader\<close> is a total function into \<open>string option\<close>, so
  it never raises. It returns the second part exactly when the header is present and
  splits on single spaces into two parts, the first being the literal \<open>Bearer\<close>; that
  is, when the header is \<open>Bearer\<close>, one space, and a token without a space. An absent
  header, another scheme or casing, and fewer or more than two parts all give none.
\<close>

theorem extractTokenFromHeader_total:
  "(extractTokenFromHeader h = Some t \<longleftrightarrow>
      (\<exists>s. h = Some s \<and> split_space s = [''Bearer'', t])) \<and>
   (extractTokenFromHeader h = Some t \<longleftrightarrow>
      h = Some (''Bearer '' @ t) \<and> CHR '' '' \<notin> set t) \<and>
   (extractTokenFromHeader h = None \<longleftrightarrow>
      (\<forall>s t'. h = Some s \<longrightarrow> split_space s \<noteq> [''Bearer'', t'])) \<and>
   extractTokenFromHeader None = None"
proof -
  have a: "extractTokenFromHeader h = Some t \<longleftrightarrow>
      (\<exists>s. h = Some s \<and> split_space s = [''Bearer'', t])" for t
    by (rule extract_Some_iff)
  have b: "extractTokenFromHeader h = Some t \<longleftrightarrow>
      h = Some (''Bearer '' @ t) \<and> CHR '' '' \<notin> set t"
    unfolding a by (auto simp: split_space_two)
  have c: "extractTokenFromHeader h = None \<longleftrightarrow>
      (\<forall>s t'. h = Some s \<longrightarrow> split_space s \<noteq> [''Bearer'', t'])"
  proof -
    have "extractTokenFromHeader h = None \<longleftrightarrow> (\<forall>t'. extractTokenFromHeader h \<noteq> Some t')"
      by (cases "extractTokenFromHeader h") auto
    then show ?thesis unfolding a by blast
  qed
  have d: "extractTokenFromHeader None = None"
    by (simp add: extractTokenFromHeader_def)
  from a b c d show ?thesis by blast
qed

theorem extractTokenFromHeader_total_witness:
  "extractTokenFromHeader (Some ''Bearer abc.def'') = Some ''abc.def'' \<and>
   split_space ''Bearer abc.def'' = [''Bearer'', ''abc.def'']"
  using extractTokenFromHeader_total [of "Some ''Bearer abc.def''" "''abc.def''"]
  by simp

lemma extractTokenFromHeader_examples:
  "extractTokenFromHeader (Some ''bearer abc'') = None"
  "extractTokenFromHeader (Some ''Basic abc'') = None"
  "extractTokenFromHeader (Some ''Bearer'') = None"
  "extractTokenFromHeader (Some ''Bearer a b'') = None"
  "extractTokenFromHeader (Some ''Bearer  abc'') = None"
  "extractTokenFromHeader (Some []) = None"
  "extractTokenFromHeader (Some ''Bearer '') = Some []"
  by (simp_all add: extractTokenFromHeader_def)

subsection \<open>Password strength\<close>

lemmas strength_defs =
  validatePasswordStrength_def criterion_def bonus_def Let_def

lemma strength_isValid:
  "isValid (validatePasswordStrength p) = (5 \<le> score (validatePasswordStrength p))"
  by (simp add: strength_defs split: prod.splits)

lemma strength_score_le: "score (validatePasswordStrength p) \<le> 7"
  by (simp add: strength_defs split: prod.splits)

lemma strength_no_special:
  assumes "12 \<le> length p" "\<exists>c \<in> set p. is_lower c" "\<exists>c \<in> set p. is_upper c"
    "\<exists>c \<in> set p. is_digit c" "\<not> (\<exists>c \<in> set p. is_special c)" "\<not> has_repeated p"
  shows "validatePasswordStrength p =
    \<lparr>isValid = True, score = 6,
     feedback = [''Password should contain special characters'']\<rparr>"
  using assms by (simp add: strength_defs)

lemma strength_example:
  "validatePasswordStrength ''Abcdefgh1234'' =
    \<lparr>isValid = True, score = 6,
     feedback = [''Password should contain special characters'']\<rparr>"
  by (simp add: strength_defs is_lower_def is_upper_def is_digit_def is_special_def
      is_line_terminator_def)

text \<open>
  Claim C10. The strength check scores seven criteria (the score is at most 7) and sets
  \<open>isValid\<close> exactly when the score is at least 5. Hence a password of 12 or more
  characters with a lowercase letter, an uppercase letter and a digit, without three equal
  characters in a row and without a special character is accepted with score 6 while the
  feedback names the missing character class; \<open>Abcdefgh1234\<close> is such an input.
\<close>

theorem validatePasswordStrength_accepts_missing_class:
  "isValid (validatePasswordStrength p) = (5 \<le> score (validatePasswordStrength p)) \<and>
   score (validatePasswordStrength p) \<le> 7 \<and>
   (12 \<le> length p \<and> (\<exists>c \<in> set p. is_lower c) \<and> (\<exists>c \<in> set p. is_upper c) \<and>
    (\<exists>c \<in> set p. is_digit c) \<and> \<not> (\<exists>c \<in> set p. is_special c) \<and> \<not> has_repeated p
    \<longrightarrow> validatePasswordStrength p =
          \<lparr>isValid = True, score = 6,
           feedback = [''Password should contain special characters'']\<rparr>) \<and>
   (\<exists>q. isValid (validatePasswordStrength q) \<and>
        ''Password should contain special characters''
          \<in> set (feedback (validatePasswordStrength q)))"
proof -
  have "isValid (validatePasswordStrength ''Abcdefgh1234'') \<and>
        ''Password should contain special characters''
          \<in> set (feedback (validatePasswordStrength ''Abcdefgh1234''))"
    by (simp add: strength_example)
  then have "\<exists>q. isValid (validatePasswordStrength q) \<and>
        ''Password should contain special characters''
          \<in> set (feedback (validatePasswordStrength q))" ..
  with strength_isValid [of p] strength_score_le [of p] strength_no_special [of p]
  show ?thesis by blast
qed

theorem validatePasswordStrength_accepts_missing_class_witness:
  "12 \<le> length ''Abcdefgh1234'' \<and> (\<exists>c \<in> set ''Abcdefgh1234''. is_lower c) \<and>
   (\<exists>c \<in> set ''Abcdefgh1234''. is_upper c) \<and> (\<exists>c \<in> set ''Abcdefgh1234''. is_digit c) \<and>
   \<not> (\<exists>c \<in> set ''Abcdefgh1234''. is_special c) \<and> \<not> has_repeated ''Abcdefgh1234'' \<and>
   validatePasswordStrength ''Abcdefgh1234'' =
     \<lparr>isValid = True, score = 6,
      feedback = [''Password should contain special characters'']\<rparr>"
  using validatePasswordStrength_accepts_missing_class [of "''Abcdefgh1234''"]
  by (simp add: is_lower_def is_upper_def is_digit_def is_special_def
      is_line_terminator_def)

subsection \<open>Token codec\<close>

lemmas jwt_defs =
  generateAccessToken_def generateRefreshToken_def verifyAccessToken_def
  verifyRefreshToken_def jwt_sign_def jwt_verify_def Let_def

lemma access_round_trip:
  "verifyAccessToken e t' (generateAccessToken e t (tokenPayload u m r)) =
     Inr ((tokenPayload u m r)\<lparr>iat := Some (t div 1000), iss := Some ''quote-service'',
            aud := Some ''quote-service-users''\<rparr>)"
  by (simp add: jwt_defs tokenPayload_def)

lemma access_token_no_exp:
  "generateAccessToken e t (tokenPayload u m r) = Jwt k p \<Longrightarrow> exp p = None"
  by (auto simp: jwt_defs tokenPayload_def)

text \<open>
  Claim C1 asks that an access token carries \<open>expiresAt = issuedAt + accessTTL\<close> (15
  minutes by default) and that its verification fails once that time has passed.
  \<open>generateAccessToken\<close> passes no \<open>expiresIn\<close> to the signing call, so no \<open>exp\<close> is
  stamped: the token issued at clock 0 under the default configuration still verifies 16
  minutes (960000 ms) later, and the claims it yields have no expiry.
\<close>

theorem access_token_verifies_after_ttl:
  "verifyAccessToken default_env 960000
     (generateAccessToken default_env 0 (tokenPayload ''u1'' ''a@x.com'' ''user'')) =
   Inr \<lparr>userId = ''u1'', email = Some ''a@x.com'', role = Some ''user'',
        tokenVersion = None, iat = Some 0, exp = None,
        iss = Some ''quote-service'', aud = Some ''quote-service-users''\<rparr>"
  using access_round_trip [of default_env 960000 0 "''u1''" "''a@x.com''" "''user''"]
  by (simp add: tokenPayload_def)

lemma default_expiry_time: "getAccessTokenExpiryTime default_env = Some 900"
  by (simp add: getAccessTokenExpiryTime_def default_env_def ACCESS_TOKEN_EXPIRY_def
      or_default_def endsWith_def parseInt_def Let_def is_white_space_def digit_value_def)

lemma default_secrets_differ:
  "ACCESS_TOKEN_SECRET default_env \<noteq> REFRESH_TOKEN_SECRET default_env"
  by (simp add: default_env_def ACCESS_TOKEN_SECRET_def REFRESH_TOKEN_SECRET_def
      or_default_def)

lemma cross_context_rejected:
  "ACCESS_TOKEN_SECRET e \<noteq> REFRESH_TOKEN_SECRET e \<Longrightarrow>
     verifyAccessToken e t' (generateRefreshToken e t p) =
       Inl (Error ''Invalid or expired access token'') \<and>
     verifyRefreshToken e t' (generateAccessToken e t p) =
       Inl (Error ''Invalid or expired refresh token'')"
  by (auto simp: jwt_defs)

lemma refresh_token_under_access_check:
  "verifyAccessToken e t' (generateRefreshToken e t (refreshTokenPayload u v)) =
     Inl (Error ''Invalid or expired access token'')
   \<longleftrightarrow> ACCESS_TOKEN_SECRET e \<noteq> REFRESH_TOKEN_SECRET e"
  by (auto simp: jwt_defs refreshTokenPayload_def)

lemma access_token_under_refresh_check:
  "verifyRefreshToken e t' (generateAccessToken e t (tokenPayload u m r)) =
     Inl (Error ''Invalid or expired refresh token'')
   \<longleftrightarrow> ACCESS_TOKEN_SECRET e \<noteq> REFRESH_TOKEN_SECRET e"
  by (auto simp: jwt_defs tokenPayload_def)

text \<open>
  Claim C2, as stated, fails: with one secret configured for both contexts, a refresh
  token passes the access verification and an access token passes the refresh
  verification (both contexts use the issuer \<open>quote-service\<close> and the audience
  \<open>quote-service-users\<close>).
\<close>

theorem cross_context_shared_secret_accepts:
  "verifyAccessToken
     \<lparr>JWT_ACCESS_SECRET = Some ''shared'', JWT_REFRESH_SECRET = Some ''shared'',
      JWT_ACCESS_EXPIRY = None, JWT_REFRESH_EXPIRY = None\<rparr> 1000
     (generateRefreshToken
        \<lparr>JWT_ACCESS_SECRET = Some ''shared'', JWT_REFRESH_SECRET = Some ''shared'',
         JWT_ACCESS_EXPIRY = None, JWT_REFRESH_EXPIRY = None\<rparr> 0
        (refreshTokenPayload ''u1'' 0)) =
   Inr \<lparr>userId = ''u1'', email = None, role = None, tokenVersion = Some 0,
        iat = Some 0, exp = None,
        iss = Some ''quote-service'', aud = Some ''quote-service-users''\<rparr> \<and>
   verifyRefreshToken
     \<lparr>JWT_ACCESS_SECRET = Some ''shared'', JWT_REFRESH_SECRET = Some ''shared'',
      JWT_ACCESS_EXPIRY = None, JWT_REFRESH_EXPIRY = None\<rparr> 1000
     (generateAccessToken
        \<lparr>JWT_ACCESS_SECRET = Some ''shared'', JWT_REFRESH_SECRET = Some ''shared'',
         JWT_ACCESS_EXPIRY = None, JWT_REFRESH_EXPIRY = None\<rparr> 0
        (tokenPayload ''u1'' ''a@x.com'' ''user'')) =
   Inr \<lparr>userId = ''u1'', email = Some ''a@x.com'', role = Some ''user'',
        tokenVersion = None, iat = Some 0, exp = None,
        iss = Some ''quote-service'', aud = Some ''quote-service-users''\<rparr>"
  by (simp add: jwt_defs refreshTokenPayload_def tokenPayload_def ACCESS_TOKEN_SECRET_def
      REFRESH_TOKEN_SECRET_def or_default_def)

text \<open>
  Claim C2, amended. Whenever the access secret and the refresh secret differ (as the
  default secrets do), every token signed for the refresh context fails the access
  verification and every token signed for the access context fails the refresh
  verification. The rejection rests on the secrets alone: a refresh token of the service
  is rejected by the access verification, and an access token by the refresh
  verification, exactly when the two secrets differ.
\<close>

theorem cross_context_rejection_iff_secrets_differ:
  "(ACCESS_TOKEN_SECRET e \<noteq> REFRESH_TOKEN_SECRET e \<longrightarrow>
      verifyAccessToken e t' (generateRefreshToken e t p) =
        Inl (Error ''Invalid or expired access token'') \<and>
      verifyRefreshToken e t' (generateAccessToken e t p) =
        Inl (Error ''Invalid or expired refresh token'')) \<and>
   (verifyAccessToken e t' (generateRefreshToken e t (refreshTokenPayload u v)) =
      Inl (Error ''Invalid or expired access token'')
    \<longleftrightarrow> ACCESS_TOKEN_SECRET e \<noteq> REFRESH_TOKEN_SECRET e) \<and>
   (verifyRefreshToken e t' (generateAccessToken e t (tokenPayload u m r)) =
      Inl (Error ''Invalid or expired refresh token'')
    \<longleftrightarrow> ACCESS_TOKEN_SECRET e \<noteq> REFRESH_TOKEN_SECRET e)"
  using cross_context_rejected [of e t' t p]
    refresh_token_under_access_check [of e t' t u v]
    access_token_under_refresh_check [of e t' t u m r]
  by blast

theorem cross_context_rejection_iff_secrets_differ_witness:
  "ACCESS_TOKEN_SECRET default_env \<noteq> REFRESH_TOKEN_SECRET default_env \<and>
   verifyAccessToken default_env 5000
     (generateRefreshToken default_env 0 (refreshTokenPayload ''u1'' 0)) =
     Inl (Error ''Invalid or expired access token'') \<and>
   verifyRefreshToken default_env 5000
     (generateAccessToken default_env 0 (tokenPayload ''u1'' ''a@x.com'' ''user'')) =
     Inl (Error ''Invalid or expired refresh token'')"
  using cross_context_rejection_iff_secrets_differ
    [of default_env 5000 0 "refreshTokenPayload ''u1'' 0" "''u1''" 0 "''a@x.com''" "''user''"]
    default_secrets_differ
  by blast

subsection \<open>The identity store\<close>

lemmas action_defs =
  succeed_def throw_def andThen_def tryCatch_def lift_def reading_def
  logger_info_def logger_error_def logger_securityEvent_def

lemma find_Some_holds: "find Q us = Some u \<Longrightarrow> Q u"
  by (induction us) (auto split: if_splits)

lemma find_update_same:
  "find Q us = Some u \<Longrightarrow> Q (g u) \<Longrightarrow> find Q (findOneAndUpdate Q g us) = Some (g u)"
  by (induction us) (auto split: if_splits)

text \<open>
  When one document is the first match of two queries, updating it through one query
  shows through the other, as long as the update keeps it a match.
\<close>

lemma find_update_other:
  "find E us = Some u \<Longrightarrow> find Q us = Some u \<Longrightarrow> E (g u) \<Longrightarrow>
   find E (findOneAndUpdate Q g us) = Some (g u)"
proof (induction us)
  case Nil
  then show ?case by simp
next
  case (Cons x xs)
  have Qu: "Q u" using Cons.prems(2) by (rule find_Some_holds)
  show ?case
  proof (cases "Q x")
    case True
    with Cons.prems show ?thesis by simp
  next
    case False
    with Qu have "x \<noteq> u" by auto
    with Cons.prems False have "\<not> E x" by (auto split: if_splits)
    with Cons False show ?thesis by simp
  qed
qed

lemma find_update_id:
  assumes "\<And>u. id' (g u) = id' u"
  shows "find (\<lambda>x. id' x = j) (findOneAndUpdate (\<lambda>x. id' x = i) g us) =
     (if j = i then map_option g (find (\<lambda>x. id' x = j) us)
      else find (\<lambda>x. id' x = j) us)"
  by (induction us) (auto simp: assms)

lemma stored_iff:
  "stored s u \<longleftrightarrow>
     dbError s = None \<and> find (\<lambda>x. email x = email u) (users s) = Some u \<and>
     find (\<lambda>x. id' x = id' u) (users s) = Some u"
  by (auto simp: stored_def getUserByEmail_def getUserById_def findOne_def
      split: option.splits)

text \<open>Unique emails and ids make every document of a working store \<open>stored\<close>.\<close>

lemma stored_unique:
  assumes "dbError s = None" "u \<in> set (users s)" "distinct (map id' (users s))"
    "distinct (map email (users s))"
  shows "stored s u"
proof -
  have key: "find (\<lambda>x. f x = f u) us = Some u" if "u \<in> set us" "distinct (map f us)"
    for f :: "user \<Rightarrow> string" and us
    using that by (induction us) (auto simp: image_iff)
  from assms show ?thesis by (simp add: stored_iff key)
qed

lemma updateUser_stored:
  assumes "stored s u" "id' (g u) = id' u" "email (g u) = email u"
  shows "updateUser now (id' u) g s =
     (Inr (Some ((g u)\<lparr>updatedAt := now\<rparr>)),
      s\<lparr>users := findOneAndUpdate (\<lambda>x. id' x = id' u)
                   (\<lambda>d. (g d)\<lparr>updatedAt := now\<rparr>) (users s),
        log := log s @ [Info ''User updated successfully'' (Some (id' u))]\<rparr>)"
  using assms by (simp add: updateUser_def stored_iff action_defs Let_def)

lemma stored_after_update:
  assumes "stored s u" "id' (g u) = id' u" "email (g u) = email u"
  shows "stored
     (s\<lparr>users := findOneAndUpdate (\<lambda>x. id' x = id' u)
                   (\<lambda>d. (g d)\<lparr>updatedAt := now\<rparr>) (users s),
        log := l\<rparr>)
     ((g u)\<lparr>updatedAt := now\<rparr>)"
  using assms by (simp add: stored_iff find_update_same find_update_other)

subsection \<open>One login attempt\<close>

lemmas service_defs =
  getUserById_def getUserByEmail_def findOne_def updateUser_def
  incrementLoginAttempts_def resetLoginAttempts_def isAccountLocked_def Let_def

lemma login_unknown_email:
  assumes "dbError s = None" "find (\<lambda>x. email x = mail) (users s) = None"
  shows "login e pu now mail pw s =
    (Inl (Error ''Invalid email or password''),
     s\<lparr>log := log s @
        [SecurityEvent ''login_attempt_invalid_email'' None Low,
         Failure ''Login failed'' (Error ''Invalid email or password'')]\<rparr>)"
  using assms
  by (simp add: login_def login_try_def service_defs action_defs)

lemma login_locked:
  assumes "stored s u" "lockUntil u = Some until" "now < until"
  shows "login e pu now (email u) pw s =
    (Inl (Error ''Account is temporarily locked due to too many failed login attempts''),
     s\<lparr>log := log s @
        [SecurityEvent ''login_attempt_locked_account'' (Some (id' u)) Medium,
         Failure ''Login failed''
           (Error
             ''Account is temporarily locked due to too many failed login attempts'')]\<rparr>)"
  using assms
  by (simp add: login_def login_try_def service_defs stored_iff action_defs)

lemma login_inactive:
  assumes "stored s u" "lockUntil u = None" "\<not> isActive u"
  shows "login e pu now (email u) pw s =
    (Inl (Error ''Account is deactivated''),
     s\<lparr>log := log s @
        [SecurityEvent ''login_attempt_inactive_account'' (Some (id' u)) Medium,
         Failure ''Login failed'' (Error ''Account is deactivated'')]\<rparr>)"
  using assms
  by (simp add: login_def login_try_def service_defs stored_iff action_defs)

lemma login_wrong_password_below:
  assumes "stored s u" "isActive u" "lockUntil u = None"
    "\<not> comparePassword pu pw (password u)" "loginAttempts u + 1 < 5"
  shows "login e pu now (email u) pw s =
    (Inl (Error ''Invalid email or password''),
     s\<lparr>users := findOneAndUpdate (\<lambda>x. id' x = id' u)
          (\<lambda>d. d\<lparr>loginAttempts := loginAttempts u + 1, updatedAt := now\<rparr>) (users s),
       log := log s @
        [Info ''User updated successfully'' (Some (id' u)),
         SecurityEvent ''login_attempt_invalid_password'' (Some (id' u)) Medium,
         Failure ''Login failed'' (Error ''Invalid email or password'')]\<rparr>)"
  using assms
  by (simp add: login_def login_try_def service_defs stored_iff action_defs)

lemma login_wrong_password_lock:
  assumes "stored s u" "isActive u" "lockUntil u = None"
    "\<not> comparePassword pu pw (password u)" "5 \<le> loginAttempts u + 1"
  shows "login e pu now (email u) pw s =
    (Inl (Error ''Invalid email or password''),
     s\<lparr>users := findOneAndUpdate (\<lambda>x. id' x = id' u)
          (\<lambda>d. d\<lparr>loginAttempts := loginAttempts u + 1,
                 lockUntil := Some (now + 1800000), updatedAt := now\<rparr>) (users s),
       log := log s @
        [SecurityEvent ''account_locked'' (Some (id' u)) High,
         Info ''User updated successfully'' (Some (id' u)),
         SecurityEvent ''login_attempt_invalid_password'' (Some (id' u)) Medium,
         Failure ''Login failed'' (Error ''Invalid email or password'')]\<rparr>)"
  using assms
  by (simp add: login_def login_try_def service_defs stored_iff action_defs)

lemma login_success:
  assumes "stored s u" "isActive u" "lockUntil u = None"
    "comparePassword pu pw (password u)"
  shows "login e pu now (email u) pw s =
    (Inr \<lparr>accessToken =
            generateAccessToken e now (tokenPayload (id' u) (email u) (role u)),
          expiresIn = getAccessTokenExpiryTime e,
          user = userResponse.truncate u,
          refreshToken =
            generateRefreshToken e now
              (refreshTokenPayload (id' u) (getTokenVersion s (id' u)))\<rparr>,
     s\<lparr>users := findOneAndUpdate (\<lambda>x. id' x = id' u)
          (\<lambda>d. d\<lparr>loginAttempts := 0, lockUntil := None, lastLoginAt := Some now,
                 updatedAt := now\<rparr>) (users s),
       log := log s @
        [Info ''User updated successfully'' (Some (id' u)),
         Info ''User logged in successfully'' (Some (id' u))]\<rparr>)"
  using assms
  by (simp add: login_def login_try_def service_defs stored_iff action_defs
      getTokenVersion_def)

subsection \<open>Lockout threshold\<close>

lemma wrong_logins_below:
  assumes "stored s u" "isActive u" "lockUntil u = None"
    "\<forall>a \<in> set as. \<not> comparePassword pu (snd a) (password u)"
    "loginAttempts u + int (length as) < 5"
  shows "stored (login_attempts e pu (email u) as s)
     (if as = [] then u
      else u\<lparr>loginAttempts := loginAttempts u + int (length as),
             updatedAt := fst (last as)\<rparr>)"
  using assms
proof (induction as arbitrary: s u)
  case Nil
  then show ?case by simp
next
  case (Cons a rest)
  obtain now pw where a: "a = (now, pw)" by (cases a)
  let ?u1 = "u\<lparr>loginAttempts := loginAttempts u + 1, updatedAt := now\<rparr>"
  let ?s1 = "snd (login e pu now (email u) pw s)"
  have wrong: "\<not> comparePassword pu pw (password u)" using Cons.prems(4) a by simp
  have below: "loginAttempts u + 1 < 5" using Cons.prems(5) by simp
  have st1: "stored ?s1 ?u1"
    unfolding login_wrong_password_below [OF Cons.prems(1-3) wrong below] snd_conv
    using stored_after_update [OF Cons.prems(1),
        where g = "\<lambda>d. d\<lparr>loginAttempts := loginAttempts u + 1\<rparr>" and now = now]
    by simp
  have "stored (login_attempts e pu (email ?u1) rest ?s1)
     (if rest = [] then ?u1
      else ?u1\<lparr>loginAttempts := loginAttempts ?u1 + int (length rest),
             updatedAt := fst (last rest)\<rparr>)"
    by (rule Cons.IH [OF st1]) (use Cons.prems in simp_all)
  then show ?case using a by (auto simp: add.assoc)
qed

lemmas example_defs = alice_def example_hasher_def example_state_def

text \<open>
  Claim C4, amended. For every active identity of a working store that starts unlocked
  with \<open>loginAttempts = 0\<close>: four wrong-password logins leave it unlocked with the
  counter at 4; the fifth wrong-password login returns the invalid-credentials error,
  sets \<open>lockUntil\<close> to its clock plus 30 minutes with the counter at 5, and logs the
  high-severity event \<open>account_locked\<close>; a sixth login inside the lock window, whatever
  its password, fails with the account-locked error and leaves every stored document,
  hence the counter, unchanged.
\<close>

theorem lockout_threshold:
  assumes "stored s u" "isActive u" "lockUntil u = None" "loginAttempts u = 0"
    and "length as = 4" "\<forall>a \<in> set as. \<not> comparePassword pu (snd a) (password u)"
    and "\<not> comparePassword pu pw5 (password u)"
    and "t6 < t5 + 30 * 60 * 1000"
  shows "let s4 = login_attempts e pu (email u) as s;
             u4 = u\<lparr>loginAttempts := 4, updatedAt := fst (last as)\<rparr>;
             (r5, s5) = login e pu t5 (email u) pw5 s4;
             u5 = u\<lparr>loginAttempts := 5, lockUntil := Some (t5 + 30 * 60 * 1000),
                    updatedAt := t5\<rparr>;
             (r6, s6) = login e pu t6 (email u) pw6 s5
         in stored s4 u4 \<and> lockUntil u4 = None \<and>
            isAccountLocked t5 u4 s4 = (Inr False, s4) \<and>
            r5 = Inl (Error ''Invalid email or password'') \<and>
            stored s5 u5 \<and>
            log s5 = log s4 @
              [SecurityEvent ''account_locked'' (Some (id' u)) High,
               Info ''User updated successfully'' (Some (id' u)),
               SecurityEvent ''login_attempt_invalid_password'' (Some (id' u)) Medium,
               Failure ''Login failed'' (Error ''Invalid email or password'')] \<and>
            r6 = Inl (Error
              ''Account is temporarily locked due to too many failed login attempts'') \<and>
            users s6 = users s5 \<and> stored s6 u5"
proof -
  let ?s4 = "login_attempts e pu (email u) as s"
  let ?u4 = "u\<lparr>loginAttempts := 4, updatedAt := fst (last as)\<rparr>"
  let ?u5 = "u\<lparr>loginAttempts := 5, lockUntil := Some (t5 + 30 * 60 * 1000), updatedAt := t5\<rparr>"
  have ne: "as \<noteq> []" using assms(5) by auto
  have s4: "stored ?s4 ?u4"
    using wrong_logins_below [OF assms(1-3) assms(6), of e] assms(4,5) ne by simp
  have u4: "isActive ?u4" "lockUntil ?u4 = None" "\<not> comparePassword pu pw5 (password ?u4)"
    "5 \<le> loginAttempts ?u4 + 1" "email ?u4 = email u" "id' ?u4 = id' u"
    using assms by simp_all
  note step5 = login_wrong_password_lock [OF s4 u4(1-4), of e t5, unfolded u4(5,6)]
  have s5: "stored (snd (login e pu t5 (email u) pw5 ?s4)) ?u5"
    unfolding step5 snd_conv
    using stored_after_update [OF s4,
        where g = "\<lambda>d. d\<lparr>loginAttempts := loginAttempts ?u4 + 1, lockUntil := Some (t5 + 1800000)\<rparr>" and now = t5]
    by simp
  have u5: "lockUntil ?u5 = Some (t5 + 1800000)" "email ?u5 = email u" "id' ?u5 = id' u" by simp_all
  have t6: "t6 < t5 + 1800000" using assms(8) by simp
  note step6 = login_locked [OF s5 u5(1) t6, of e pu pw6, unfolded u5(2,3)]
  have s6: "stored (snd (login e pu t6 (email u) pw6 (snd (login e pu t5 (email u) pw5 ?s4)))) ?u5"
    unfolding step6 snd_conv using s5 by (simp add: stored_iff)
  have locked4: "isAccountLocked t5 ?u4 ?s4 = (Inr False, ?s4)"
    using assms(3) by (simp add: isAccountLocked_def succeed_def)
  show ?thesis
    unfolding Let_def split_def
    using s4 locked4 s5 s6 step6 assms(3)
    by (simp add: step5)
qed

theorem lockout_threshold_witness:
  "stored example_state alice \<and> isActive alice \<and> lockUntil alice = None \<and>
   loginAttempts alice = 0 \<and>
   \<not> comparePassword example_hasher ''guess'' (password alice) \<and>
   (6000::nat) < 5000 + 30 * 60 * 1000 \<and>
   stored
     (snd (login default_env example_hasher 5000 ''alice@x.com'' ''guess''
        (login_attempts default_env example_hasher ''alice@x.com''
           [(1000, ''guess''), (2000, ''guess''), (3000, ''guess''), (4000, ''guess'')]
           example_state)))
     (alice\<lparr>loginAttempts := 5, lockUntil := Some 1805000, updatedAt := 5000\<rparr>) \<and>
   fst (login default_env example_hasher 6000 ''alice@x.com'' ''correct horse''
     (snd (login default_env example_hasher 5000 ''alice@x.com'' ''guess''
        (login_attempts default_env example_hasher ''alice@x.com''
           [(1000, ''guess''), (2000, ''guess''), (3000, ''guess''), (4000, ''guess'')]
           example_state)))) =
   Inl (Error ''Account is temporarily locked due to too many failed login attempts'')"
proof -
  have h: "stored example_state alice" "isActive alice" "lockUntil alice = None"
    "loginAttempts alice = 0"
    by (simp_all add: stored_iff example_defs)
  have w: "\<not> comparePassword example_hasher ''guess'' (password alice)"
    by (simp add: example_defs)
  have ws: "\<forall>a \<in> set [(1000::nat, ''guess''), (2000, ''guess''), (3000, ''guess''), (4000, ''guess'')].
      \<not> comparePassword example_hasher (snd a) (password alice)"
    using w by simp
  have t: "(6000::nat) < 5000 + 30 * 60 * 1000" by simp
  have m: "email alice = ''alice@x.com''" by (simp add: alice_def)
  from lockout_threshold [OF h _ ws w t, of default_env "''correct horse''"] h w t
  show ?thesis
    by (simp add: Let_def split_def m)
qed

text \<open>
  Claim C4, as stated for every identity, fails for an inactive one: its login stops at
  the deactivation check before the password is compared, so five wrong-password logins
  neither count nor lock.
\<close>

theorem lockout_inactive_never_locks:
  "lockUntil (alice\<lparr>isActive := False\<rparr>) = None \<and>
   loginAttempts (alice\<lparr>isActive := False\<rparr>) = 0 \<and>
   \<not> comparePassword example_hasher ''guess'' (password (alice\<lparr>isActive := False\<rparr>)) \<and>
   fst (login default_env example_hasher 5000 ''alice@x.com'' ''guess''
     (login_attempts default_env example_hasher ''alice@x.com''
        [(1000, ''guess''), (2000, ''guess''), (3000, ''guess''), (4000, ''guess'')]
        (example_state\<lparr>users := [alice\<lparr>isActive := False\<rparr>]\<rparr>))) =
     Inl (Error ''Account is deactivated'') \<and>
   users (snd (login default_env example_hasher 5000 ''alice@x.com'' ''guess''
     (login_attempts default_env example_hasher ''alice@x.com''
        [(1000, ''guess''), (2000, ''guess''), (3000, ''guess''), (4000, ''guess'')]
        (example_state\<lparr>users := [alice\<lparr>isActive := False\<rparr>]\<rparr>)))) =
     [alice\<lparr>isActive := False\<rparr>]"
  by (simp add: example_defs login_def login_try_def service_defs action_defs)

subsection \<open>Logging in after the lock window\<close>

lemma stored_after_two_updates:
  assumes "stored s u" "id' (g u) = id' u" "email (g u) = email u"
  assumes "id' (h ((g u)\<lparr>updatedAt := now\<rparr>)) = id' u" "email (h ((g u)\<lparr>updatedAt := now\<rparr>)) = email u"
  shows "stored
     (s\<lparr>users := findOneAndUpdate (\<lambda>x. id' x = id' u)
                   (\<lambda>d. (h d)\<lparr>updatedAt := now'\<rparr>) (findOneAndUpdate (\<lambda>x. id' x = id' u)
                   (\<lambda>d. (g d)\<lparr>updatedAt := now\<rparr>) (users s)),
        log := l\<rparr>)
     ((h ((g u)\<lparr>updatedAt := now\<rparr>))\<lparr>updatedAt := now'\<rparr>)"
proof -
  let ?Q = "\<lambda>x. id' x = id' u" and ?E = "\<lambda>x. email x = email u"
  let ?g = "\<lambda>d. (g d)\<lparr>updatedAt := now\<rparr>" and ?h = "\<lambda>d. (h d)\<lparr>updatedAt := now'\<rparr>"
  from assms(1) have f: "find ?E (users s) = Some u" "find ?Q (users s) = Some u"
    and d: "dbError s = None"
    by (simp_all add: stored_iff)
  have q1: "find ?Q (findOneAndUpdate ?Q ?g (users s)) = Some (?g u)"
    using f(2) assms(2) by (simp add: find_update_same)
  have e1: "find ?E (findOneAndUpdate ?Q ?g (users s)) = Some (?g u)"
    using f assms(3) by (simp add: find_update_other)
  have q2: "find ?Q (findOneAndUpdate ?Q ?h (findOneAndUpdate ?Q ?g (users s))) = Some (?h (?g u))"
    using q1 assms(4) by (simp add: find_update_same)
  have e2: "find ?E (findOneAndUpdate ?Q ?h (findOneAndUpdate ?Q ?g (users s))) = Some (?h (?g u))"
    using find_update_other [of ?E _ "?g u" ?Q ?h, OF e1 q1] assms(5) by simp
  from d q2 e2 assms(4,5) show ?thesis by (simp add: stored_iff)
qed

lemma isAccountLocked_expired:
  assumes "stored s u" "lockUntil u = Some until" "until \<le> now"
  shows "isAccountLocked now u s =
     (Inr False,
      s\<lparr>users := findOneAndUpdate (\<lambda>x. id' x = id' u)
          (\<lambda>d. d\<lparr>lockUntil := None, loginAttempts := 0, updatedAt := now\<rparr>) (users s),
        log := log s @ [Info ''User updated successfully'' (Some (id' u))]\<rparr>)"
  using assms by (simp add: service_defs stored_iff action_defs)

lemma login_expired_inactive:
  assumes "stored s u" "lockUntil u = Some until" "until \<le> now" "\<not> isActive u"
  shows "login e pu now (email u) pw s =
    (Inl (Error ''Account is deactivated''),
      s\<lparr>users := findOneAndUpdate (\<lambda>x. id' x = id' u)
          (\<lambda>d. d\<lparr>lockUntil := None, loginAttempts := 0, updatedAt := now\<rparr>) (users s),
        log := log s @ [Info ''User updated successfully'' (Some (id' u)),
         SecurityEvent ''login_attempt_inactive_account'' (Some (id' u)) Medium,
         Failure ''Login failed'' (Error ''Account is deactivated'')]\<rparr>)"
  using assms
  by (simp add: login_def login_try_def service_defs stored_iff action_defs)

lemma login_expired_wrong_password:
  assumes "stored s u" "lockUntil u = Some until" "until \<le> now" "isActive u"
    "\<not> comparePassword pu pw (password u)"
  shows "login e pu now (email u) pw s =
    (Inl (Error ''Invalid email or password''),
      s\<lparr>users := findOneAndUpdate (\<lambda>x. id' x = id' u)
          (\<lambda>d. d\<lparr>loginAttempts := 1, updatedAt := now\<rparr>)
          (findOneAndUpdate (\<lambda>x. id' x = id' u)
            (\<lambda>d. d\<lparr>lockUntil := None, loginAttempts := 0, updatedAt := now\<rparr>) (users s)),
        log := log s @ [Info ''User updated successfully'' (Some (id' u)),
         Info ''User updated successfully'' (Some (id' u)),
         SecurityEvent ''login_attempt_invalid_password'' (Some (id' u)) Medium,
         Failure ''Login failed'' (Error ''Invalid email or password'')]\<rparr>)"
  using assms
  by (simp add: login_def login_try_def service_defs stored_iff action_defs find_update_same)

lemma login_expired_success:
  assumes "stored s u" "lockUntil u = Some until" "until \<le> now" "isActive u"
    "comparePassword pu pw (password u)"
  shows "login e pu now (email u) pw s =
    (Inr \<lparr>accessToken =
            generateAccessToken e now (tokenPayload (id' u) (email u) (role u)),
          expiresIn = getAccessTokenExpiryTime e,
          user = userResponse.truncate u,
          refreshToken =
            generateRefreshToken e now
              (refreshTokenPayload (id' u) (getTokenVersion s (id' u)))\<rparr>,
      s\<lparr>users := findOneAndUpdate (\<lambda>x. id' x = id' u)
          (\<lambda>d. d\<lparr>loginAttempts := 0, lockUntil := None, lastLoginAt := Some now,
                 updatedAt := now\<rparr>)
          (findOneAndUpdate (\<lambda>x. id' x = id' u)
            (\<lambda>d. d\<lparr>lockUntil := None, loginAttempts := 0, updatedAt := now\<rparr>) (users s)),
        log := log s @ [Info ''User updated successfully'' (Some (id' u)),
         Info ''User updated successfully'' (Some (id' u)),
         Info ''User logged in successfully'' (Some (id' u))]\<rparr>)"
  using assms
  by (simp add: login_def login_try_def service_defs stored_iff action_defs find_update_same getTokenVersion_def)

lemma stored_log: "stored (s\<lparr>log := l\<rparr>) u = stored s u"
  by (simp add: stored_iff)

text \<open>
  Claim C6. For every stored identity whose \<open>lockUntil\<close> is set and not after the
  clock, the lock query answers false and leaves the document unlocked, with
  \<open>lockUntil\<close> cleared and \<open>loginAttempts\<close> reset to 0 (asked again, it answers false
  without a further change). A login at that clock makes the same transition first and
  is then evaluated on the unlocked document: it is never rejected as locked; for an
  inactive identity it fails as deactivated with the counter at 0; with a wrong password
  it fails as invalid credentials with the counter at 1; with the right password it
  succeeds with the counter at 0 and \<open>lastLoginAt\<close> stamped.
\<close>

theorem lazy_unlock:
  assumes "stored s u" "lockUntil u = Some until" "until \<le> now"
  shows "let (locked, s1) = isAccountLocked now u s;
             u1 = u\<lparr>lockUntil := None, loginAttempts := 0, updatedAt := now\<rparr>;
             (r, s2) = login e pu now (email u) pw s
         in locked = Inr False \<and> stored s1 u1 \<and>
            isAccountLocked now' u1 s1 = (Inr False, s1) \<and>
            r \<noteq> Inl (Error
              ''Account is temporarily locked due to too many failed login attempts'') \<and>
            (\<not> isActive u \<longrightarrow>
               r = Inl (Error ''Account is deactivated'') \<and> stored s2 u1) \<and>
            (isActive u \<and> \<not> comparePassword pu pw (password u) \<longrightarrow>
               r = Inl (Error ''Invalid email or password'') \<and>
               stored s2 (u\<lparr>lockUntil := None, loginAttempts := 1, updatedAt := now\<rparr>)) \<and>
            (isActive u \<and> comparePassword pu pw (password u) \<longrightarrow>
               (\<exists>response. r = Inr response) \<and>
               stored s2 (u\<lparr>loginAttempts := 0, lockUntil := None, lastLoginAt := Some now,
                            updatedAt := now\<rparr>))"
proof -
  let ?u1 = "u\<lparr>lockUntil := None, loginAttempts := 0, updatedAt := now\<rparr>"
  note lock = isAccountLocked_expired [OF assms, of ]
  have s1: "stored (snd (isAccountLocked now u s)) ?u1"
    unfolding lock snd_conv
    using stored_after_update [where s = s and u = u and now = now
        and g = "\<lambda>d. d\<lparr>lockUntil := None, loginAttempts := 0\<rparr>"] assms(1)
    by (simp add: stored_log)
  have again: "isAccountLocked now' ?u1 (snd (isAccountLocked now u s)) =
      (Inr False, snd (isAccountLocked now u s))"
    by (simp add: isAccountLocked_def succeed_def)
  have inactive: "stored (snd (login e pu now (email u) pw s)) ?u1"
    "fst (login e pu now (email u) pw s) = Inl (Error ''Account is deactivated'')"
    if "\<not> isActive u"
    unfolding login_expired_inactive [OF assms that]
    using stored_after_update [where s = s and u = u and now = now
        and g = "\<lambda>d. d\<lparr>lockUntil := None, loginAttempts := 0\<rparr>"] assms(1)
    by (simp_all add: stored_log)
  have wrong: "stored (snd (login e pu now (email u) pw s)) (u\<lparr>lockUntil := None, loginAttempts := 1, updatedAt := now\<rparr>)"
    "fst (login e pu now (email u) pw s) = Inl (Error ''Invalid email or password'')"
    if "isActive u" "\<not> comparePassword pu pw (password u)"
    unfolding login_expired_wrong_password [OF assms that]
    using stored_after_two_updates [where s = s and u = u and now = now and now' = now
        and g = "\<lambda>d. d\<lparr>lockUntil := None, loginAttempts := 0\<rparr>"
        and h = "\<lambda>d. d\<lparr>loginAttempts := 1\<rparr>"] assms(1)
    by (simp_all add: stored_log)
  have right: "stored (snd (login e pu now (email u) pw s)) (u\<lparr>loginAttempts := 0, lockUntil := None, lastLoginAt := Some now, updatedAt := now\<rparr>)"
    "\<exists>response. fst (login e pu now (email u) pw s) = Inr response"
    if "isActive u" "comparePassword pu pw (password u)"
    unfolding login_expired_success [OF assms that]
    using stored_after_two_updates [where s = s and u = u and now = now and now' = now
        and g = "\<lambda>d. d\<lparr>lockUntil := None, loginAttempts := 0\<rparr>"
        and h = "\<lambda>d. d\<lparr>loginAttempts := 0, lockUntil := None, lastLoginAt := Some now\<rparr>"] assms(1)
    by (simp_all add: stored_log)
  have notlocked: "fst (login e pu now (email u) pw s) \<noteq> Inl (Error
              ''Account is temporarily locked due to too many failed login attempts'')"
    using inactive(2) wrong(2) right(2) by (cases "isActive u"; cases "comparePassword pu pw (password u)") auto
  show ?thesis
    unfolding Let_def split_def
    using s1 again inactive wrong right notlocked
    by (simp add: lock)
qed

theorem lazy_unlock_witness:
  "stored (example_state\<lparr>users := [alice\<lparr>loginAttempts := 5, lockUntil := Some 1805000\<rparr>]\<rparr>)
     (alice\<lparr>loginAttempts := 5, lockUntil := Some 1805000\<rparr>) \<and>
   lockUntil (alice\<lparr>loginAttempts := 5, lockUntil := Some 1805000\<rparr>) = Some 1805000 \<and>
   (1805000::nat) \<le> 1805000 \<and>
   fst (isAccountLocked 1805000 (alice\<lparr>loginAttempts := 5, lockUntil := Some 1805000\<rparr>)
     (example_state\<lparr>users := [alice\<lparr>loginAttempts := 5, lockUntil := Some 1805000\<rparr>]\<rparr>)) =
     Inr False \<and>
   fst (login default_env example_hasher 1805000 ''alice@x.com'' ''guess''
     (example_state\<lparr>users := [alice\<lparr>loginAttempts := 5, lockUntil := Some 1805000\<rparr>]\<rparr>)) =
     Inl (Error ''Invalid email or password'') \<and>
   stored
     (snd (login default_env example_hasher 1805000 ''alice@x.com'' ''guess''
        (example_state\<lparr>users := [alice\<lparr>loginAttempts := 5, lockUntil := Some 1805000\<rparr>]\<rparr>)))
     (alice\<lparr>lockUntil := None, loginAttempts := 1, updatedAt := 1805000\<rparr>)"
proof -
  let ?A = "alice\<lparr>loginAttempts := 5, lockUntil := Some 1805000\<rparr>"
  let ?S = "example_state\<lparr>users := [?A]\<rparr>"
  have h: "stored ?S ?A" "lockUntil ?A = Some 1805000" "(1805000::nat) \<le> 1805000"
    by (simp_all add: stored_iff example_defs)
  have a: "isActive ?A" "\<not> comparePassword example_hasher ''guess'' (password ?A)"
    "email ?A = ''alice@x.com''"
    by (simp_all add: example_defs)
  from lazy_unlock [OF h, where e = default_env and pu = example_hasher and pw = "''guess''"
      and now' = 1805000] h a
  show ?thesis
    by (simp add: Let_def split_def)
qed

subsection \<open>Unknown email and wrong password\<close>

lemma find_update_other_id:
  "j \<noteq> i \<Longrightarrow> (\<And>d. id' (g d) = id' d) \<Longrightarrow>
   find (\<lambda>x. id' x = j) (findOneAndUpdate (\<lambda>x. id' x = i) g us) = find (\<lambda>x. id' x = j) us"
  by (induction us) auto

text \<open>
  Claim C5, amended. Take a stored, active identity whose lock window is not active at
  the clock of the attempt, a password that does not match its digest, and an email the
  store does not hold. The login with the unknown email and the login with the stored
  email return the same error, \<open>Invalid email or password\<close>. The unknown-email run
  leaves the collection and the revocation registry as they were. The wrong-password run
  adds one to the counter of that identity (counted from 0 when an expired lock was
  cleared first), locks it when the counter reaches 5, and changes no document with
  another id.
\<close>

theorem login_enumeration_resistance:
  assumes "stored s u" "isActive u" "\<not> lock_active now u"
    "\<not> comparePassword pu pw (password u)"
    and "getUserByEmail mail s = (Inr None, s)"
  shows "let (r1, s1) = login e pu now1 mail pw s;
             (r2, s2) = login e pu now (email u) pw s;
             base = (if lockUntil u = None then loginAttempts u else 0)
         in r1 = Inl (Error ''Invalid email or password'') \<and> r2 = r1 \<and>
            users s1 = users s \<and> tokenVersions s1 = tokenVersions s \<and>
            stored s2
              (u\<lparr>loginAttempts := base + 1,
                 lockUntil := (if 5 \<le> base + 1 then Some (now + 30 * 60 * 1000) else None),
                 updatedAt := now\<rparr>) \<and>
            (\<forall>j. j \<noteq> id' u \<longrightarrow>
               find (\<lambda>x. id' x = j) (users s2) = find (\<lambda>x. id' x = j) (users s))"
proof -
  let ?base = "if lockUntil u = None then loginAttempts u else 0"
  let ?u2 = "u\<lparr>loginAttempts := ?base + 1,
                 lockUntil := (if 5 \<le> ?base + 1 then Some (now + 30 * 60 * 1000) else None),
                 updatedAt := now\<rparr>"
  let ?run1 = "login e pu now1 mail pw s" and ?run2 = "login e pu now (email u) pw s"
  from assms(5) have unknown: "dbError s = None" "find (\<lambda>x. email x = mail) (users s) = None"
    by (auto simp: getUserByEmail_def findOne_def split: option.splits)
  note run1 = login_unknown_email [OF unknown, of e pu now1 pw]
  have r1: "fst ?run1 = Inl (Error ''Invalid email or password'')"
    and u1: "users (snd ?run1) = users s" and v1: "tokenVersions (snd ?run1) = tokenVersions s"
    by (simp_all add: run1)
  have run2: "fst ?run2 = Inl (Error ''Invalid email or password'') \<and> stored (snd ?run2) ?u2 \<and>
     (\<forall>j. j \<noteq> id' u \<longrightarrow>
        find (\<lambda>x. id' x = j) (users (snd ?run2)) = find (\<lambda>x. id' x = j) (users s))"
  proof (cases "lockUntil u")
    case None
    show ?thesis
    proof (cases "loginAttempts u + 1 < 5")
      case True
      have eq: "?u2 = u\<lparr>loginAttempts := loginAttempts u + 1, updatedAt := now\<rparr>"
        using None True by (cases u) simp
      show ?thesis
        unfolding eq login_wrong_password_below [OF assms(1,2) None assms(4) True]
        using stored_after_update [where s = s and u = u and now = now
            and g = "\<lambda>d. d\<lparr>loginAttempts := loginAttempts u + 1\<rparr>"] assms(1)
        by (simp add: stored_log find_update_other_id)
    next
      case False
      then have ge: "5 \<le> loginAttempts u + 1" by simp
      have eq: "?u2 = u\<lparr>loginAttempts := loginAttempts u + 1,
          lockUntil := Some (now + 1800000), updatedAt := now\<rparr>"
        using None ge by (cases u) simp
      show ?thesis
        unfolding eq login_wrong_password_lock [OF assms(1,2) None assms(4) ge]
        using stored_after_update [where s = s and u = u and now = now
            and g = "\<lambda>d. d\<lparr>loginAttempts := loginAttempts u + 1,
                       lockUntil := Some (now + 1800000)\<rparr>"] assms(1)
        by (simp add: stored_log find_update_other_id)
    qed
  next
    case (Some until)
    with assms(3) have exp: "until \<le> now" by (simp add: lock_active_def)
    have eq: "?u2 = u\<lparr>lockUntil := None, loginAttempts := 1, updatedAt := now\<rparr>"
      using Some by (cases u) simp
    show ?thesis
      unfolding eq login_expired_wrong_password [OF assms(1) Some exp assms(2,4)]
      using stored_after_two_updates [where s = s and u = u and now = now and now' = now
          and g = "\<lambda>d. d\<lparr>lockUntil := None, loginAttempts := 0\<rparr>"
          and h = "\<lambda>d. d\<lparr>loginAttempts := 1\<rparr>"] assms(1)
      by (simp add: stored_log find_update_other_id)
  qed
  show ?thesis
    unfolding Let_def split_def
    using r1 u1 v1 run2 by simp
qed

theorem login_enumeration_resistance_witness:
  "stored example_state alice \<and> isActive alice \<and> \<not> lock_active 1000 alice \<and>
   \<not> comparePassword example_hasher ''guess'' (password alice) \<and>
   getUserByEmail ''nobody@x.com'' example_state = (Inr None, example_state) \<and>
   fst (login default_env example_hasher 1000 ''nobody@x.com'' ''guess'' example_state) =
     Inl (Error ''Invalid email or password'') \<and>
   fst (login default_env example_hasher 1000 ''alice@x.com'' ''guess'' example_state) =
     Inl (Error ''Invalid email or password'') \<and>
   users (snd (login default_env example_hasher 1000 ''nobody@x.com'' ''guess''
     example_state)) = [alice] \<and>
   stored
     (snd (login default_env example_hasher 1000 ''alice@x.com'' ''guess'' example_state))
     (alice\<lparr>loginAttempts := 1, lockUntil := None, updatedAt := 1000\<rparr>)"
proof -
  have h: "stored example_state alice" "isActive alice" "\<not> lock_active 1000 alice"
    "\<not> comparePassword example_hasher ''guess'' (password alice)"
    "getUserByEmail ''nobody@x.com'' example_state = (Inr None, example_state)"
    by (simp_all add: stored_iff example_defs lock_active_def getUserByEmail_def
        findOne_def)
  have a: "email alice = ''alice@x.com''" "lockUntil alice = None" "loginAttempts alice = 0"
    "users example_state = [alice]"
    by (simp_all add: example_defs)
  from login_enumeration_resistance [OF h, where e = default_env and ?now1.0 = 1000] h a
  show ?thesis
    by (simp add: Let_def split_def)
qed

text \<open>
  Claim C5, as stated for every stored email, fails when the stored identity is locked:
  the wrong-password login is rejected as locked, with a message that differs from the
  one for an unknown email, and the counter is not incremented.
\<close>

theorem login_locked_account_distinguishable:
  "\<not> comparePassword example_hasher ''guess''
       (password (alice\<lparr>loginAttempts := 5, lockUntil := Some 1805000\<rparr>)) \<and>
   fst (login default_env example_hasher 6000 ''nobody@x.com'' ''guess''
     (example_state\<lparr>users := [alice\<lparr>loginAttempts := 5, lockUntil := Some 1805000\<rparr>]\<rparr>)) =
     Inl (Error ''Invalid email or password'') \<and>
   fst (login default_env example_hasher 6000 ''alice@x.com'' ''guess''
     (example_state\<lparr>users := [alice\<lparr>loginAttempts := 5, lockUntil := Some 1805000\<rparr>]\<rparr>)) =
     Inl (Error ''Account is temporarily locked due to too many failed login attempts'') \<and>
   users (snd (login default_env example_hasher 6000 ''alice@x.com'' ''guess''
     (example_state\<lparr>users := [alice\<lparr>loginAttempts := 5, lockUntil := Some 1805000\<rparr>]\<rparr>))) =
     [alice\<lparr>loginAttempts := 5, lockUntil := Some 1805000\<rparr>]"
  by (simp add: example_defs login_def login_try_def service_defs action_defs)

subsection \<open>Revocation\<close>

lemma getTokenVersion_logout:
  "getTokenVersion (snd (logout i s)) j = (if j = i then getTokenVersion s i + 1 else getTokenVersion s j)"
  by (simp add: logout_def incrementTokenVersion_def getTokenVersion_def action_defs Let_def)

lemma logout_state:
  "logout i s = (Inr (), s\<lparr>tokenVersions := (tokenVersions s)(i \<mapsto> getTokenVersion s i + 1),
      log := log s @ [Info ''User logged out successfully'' (Some i)]\<rparr>)"
  by (simp add: logout_def incrementTokenVersion_def action_defs Let_def)

lemma verifyRefreshToken_own:
  "verifyRefreshToken e now (generateRefreshToken e t (refreshTokenPayload i v)) =
     Inr \<lparr>userId = i, email = None, role = None, tokenVersion = Some v,
          iat = Some (t div 1000), exp = None, iss = Some ''quote-service'',
          aud = Some ''quote-service-users''\<rparr>"
  by (simp add: jwt_defs refreshTokenPayload_def)

lemma refreshToken_stale:
  "v \<noteq> getTokenVersion s i \<Longrightarrow>
   refreshToken e now (generateRefreshToken e t (refreshTokenPayload i v)) s =
     (Inl (Error ''Invalid refresh token''),
      s\<lparr>log := log s @ [Failure ''Token refresh failed'' (Error ''Token version mismatch'')]\<rparr>)"
  by (simp add: refreshToken_def refreshToken_try_def verifyRefreshToken_own action_defs getUserById_def findOne_def split: option.splits)

lemma refreshToken_current:
  assumes "getUserById i s = (Inr (Some u), s)" "isActive u"
  shows "refreshToken e now (generateRefreshToken e t (refreshTokenPayload i (getTokenVersion s i))) s =
     (Inr \<lparr>accessToken = generateAccessToken e now (tokenPayload (id' u) (email u) (role u)),
           expiresIn = getAccessTokenExpiryTime e\<rparr>,
      s\<lparr>log := log s @ [Info ''Token refreshed successfully'' (Some (id' u))]\<rparr>)"
  using assms
  by (simp add: refreshToken_def refreshToken_try_def verifyRefreshToken_own action_defs getUserById_def findOne_def split: option.splits)

lemma getUserById_frame:
  "getUserById i s = (Inr r, s) \<Longrightarrow> users s' = users s \<Longrightarrow> dbError s' = dbError s \<Longrightarrow>
   getUserById i s' = (Inr r, s')"
  by (auto simp: getUserById_def findOne_def split: option.splits)

lemma stored_frame:
  "users s' = users s \<Longrightarrow> dbError s' = dbError s \<Longrightarrow> stored s' u = stored s u"
  by (simp add: stored_iff)

text \<open>
  Claim C3. Let \<open>G\<close> be the current generation of an identity. After \<open>logout\<close> the
  generation is \<open>G + 1\<close>, and a refresh with a token stamped \<open>G\<close> (the one the
  service issued, or any token that verifies with that identity and that stamp) fails
  with the one error \<open>Invalid refresh token\<close>. When the identity exists and is active, a refresh
  with a token stamped \<open>G + 1\<close> succeeds: it returns a new access token and
  \<open>expiresIn\<close> only, changes nothing but the log, and the same refresh token succeeds
  again afterwards (it is not rotated). The refresh token that a successful login after
  the logout issues is the one stamped \<open>G + 1\<close>.
\<close>

theorem logout_revokes_refresh_tokens:
  "let G = getTokenVersion s i;
       old = generateRefreshToken e t0 (refreshTokenPayload i G);
       s1 = snd (logout i s);
       new = generateRefreshToken e t1 (refreshTokenPayload i (G + 1))
   in getTokenVersion s1 i = G + 1 \<and>
      fst (refreshToken e now old s1) = Inl (Error ''Invalid refresh token'') \<and>
      (\<forall>tok p. verifyRefreshToken e now tok = Inr p \<and> userId p = i \<and>
           tokenVersion p = Some G \<longrightarrow>
         fst (refreshToken e now tok s1) = Inl (Error ''Invalid refresh token'')) \<and>
      (\<forall>u. getUserById i s = (Inr (Some u), s) \<and> isActive u \<longrightarrow>
         refreshToken e now new s1 =
           (Inr \<lparr>accessToken =
                   generateAccessToken e now (tokenPayload (id' u) (email u) (role u)),
                 expiresIn = getAccessTokenExpiryTime e\<rparr>,
            s1\<lparr>log := log s1 @ [Info ''Token refreshed successfully'' (Some (id' u))]\<rparr>) \<and>
         fst (refreshToken e now' new (snd (refreshToken e now new s1))) =
           Inr \<lparr>accessToken =
                   generateAccessToken e now' (tokenPayload (id' u) (email u) (role u)),
                 expiresIn = getAccessTokenExpiryTime e\<rparr>) \<and>
      (\<forall>u pu pw. stored s u \<and> id' u = i \<and> isActive u \<and> lockUntil u = None \<and>
           comparePassword pu pw (password u) \<longrightarrow>
         map_sum id AuthResponse.refreshToken (fst (login e pu t1 (email u) pw s1)) = Inr new)"
proof -
  let ?G = "getTokenVersion s i"
  let ?s1 = "snd (logout i s)"
  let ?new = "generateRefreshToken e t1 (refreshTokenPayload i (?G + 1))"
  have v1: "getTokenVersion ?s1 i = ?G + 1"
    by (simp add: getTokenVersion_logout)
  have frame1: "users ?s1 = users s" "dbError ?s1 = dbError s"
    by (simp_all add: logout_state)
  have old: "fst (refreshToken e now (generateRefreshToken e t0 (refreshTokenPayload i ?G)) ?s1) =
      Inl (Error ''Invalid refresh token'')"
    by (simp add: refreshToken_stale v1)
  have stamped: "fst (refreshToken e now tok ?s1) = Inl (Error ''Invalid refresh token'')"
    if "verifyRefreshToken e now tok = Inr p \<and> userId p = i \<and> tokenVersion p = Some ?G"
    for tok p
    using that v1
    by (simp add: refreshToken_def refreshToken_try_def action_defs)
  have new: "refreshToken e now ?new ?s1 =
           (Inr \<lparr>accessToken =
                   generateAccessToken e now (tokenPayload (id' u) (email u) (role u)),
                 expiresIn = getAccessTokenExpiryTime e\<rparr>,
            ?s1\<lparr>log := log ?s1 @ [Info ''Token refreshed successfully'' (Some (id' u))]\<rparr>) \<and>
         fst (refreshToken e now' ?new (snd (refreshToken e now ?new ?s1))) =
           Inr \<lparr>accessToken =
                   generateAccessToken e now' (tokenPayload (id' u) (email u) (role u)),
                 expiresIn = getAccessTokenExpiryTime e\<rparr>"
    if u: "getUserById i s = (Inr (Some u), s) \<and> isActive u" for u
  proof -
    have g1: "getUserById i ?s1 = (Inr (Some u), ?s1)"
      using u getUserById_frame [OF _ frame1] by blast
    note first = refreshToken_current [OF g1, of e now t1, unfolded v1] 
    let ?s2 = "?s1\<lparr>log := log ?s1 @ [Info ''Token refreshed successfully'' (Some (id' u))]\<rparr>"
    have g2: "getUserById i ?s2 = (Inr (Some u), ?s2)"
      using g1 getUserById_frame [of i ?s1 "Some u" ?s2] by simp
    have v2: "getTokenVersion ?s2 i = ?G + 1"
      using v1 by (simp add: getTokenVersion_def)
    note second = refreshToken_current [OF g2, of e now' t1, unfolded v2]
    from u first second show ?thesis by simp
  qed
  have relogin: "map_sum id AuthResponse.refreshToken (fst (login e pu t1 (email u) pw ?s1)) = Inr ?new"
    if u: "stored s u \<and> id' u = i \<and> isActive u \<and> lockUntil u = None \<and>
           comparePassword pu pw (password u)" for u pu pw
  proof -
    have st: "stored ?s1 u" using u stored_frame [OF frame1] by simp
    from login_success [OF st, of pu pw e t1] u v1 show ?thesis by simp
  qed
  show ?thesis
    unfolding Let_def using v1 old stamped new relogin by blast
qed


theorem logout_revokes_refresh_tokens_witness:
  "getUserById ''u1'' example_state = (Inr (Some alice), example_state) \<and> isActive alice \<and>
   getTokenVersion example_state ''u1'' = 0 \<and>
   getTokenVersion (snd (logout ''u1'' example_state)) ''u1'' = 1 \<and>
   fst (refreshToken default_env 2000
          (generateRefreshToken default_env 0 (refreshTokenPayload ''u1'' 0))
          (snd (logout ''u1'' example_state))) =
     Inl (Error ''Invalid refresh token'') \<and>
   fst (refreshToken default_env 2000
          (generateRefreshToken default_env 1500 (refreshTokenPayload ''u1'' 1))
          (snd (logout ''u1'' example_state))) =
     Inr \<lparr>accessToken =
            generateAccessToken default_env 2000
              (tokenPayload ''u1'' ''alice@x.com'' ''user''),
          expiresIn = Some 900\<rparr>"
proof -
  have h: "getUserById ''u1'' example_state = (Inr (Some alice), example_state)"
    "isActive alice"
    by (simp_all add: getUserById_def findOne_def example_defs)
  have g: "getTokenVersion example_state ''u1'' = 0"
    by (simp add: getTokenVersion_def example_defs)
  have a: "id' alice = ''u1''" "email alice = ''alice@x.com''" "role alice = ''user''"
    by (simp_all add: alice_def)
  from logout_revokes_refresh_tokens [where s = example_state and i = "''u1''"
      and e = default_env and ?t0.0 = 0 and ?t1.0 = 1500 and now = 2000 and now' = 2000,
      unfolded Let_def g] h
  have "getTokenVersion (snd (logout ''u1'' example_state)) ''u1'' = 1"
    "fst (refreshToken default_env 2000
          (generateRefreshToken default_env 0 (refreshTokenPayload ''u1'' 0))
          (snd (logout ''u1'' example_state))) =
     Inl (Error ''Invalid refresh token'')"
    "fst (refreshToken default_env 2000
          (generateRefreshToken default_env 1500 (refreshTokenPayload ''u1'' 1))
          (snd (logout ''u1'' example_state))) =
     Inr \<lparr>accessToken =
            generateAccessToken default_env 2000
              (tokenPayload (id' alice) (email alice) (role alice)),
          expiresIn = getAccessTokenExpiryTime default_env\<rparr>"
    by simp_all
  with h g a default_expiry_time show ?thesis by simp
qed

subsection \<open>Validating an access token\<close>

lemma validateAccessToken_result:
  "validateAccessToken e now tok s =
     (Inr (case verifyAccessToken e now tok of
             Inl err \<Rightarrow> None
           | Inr p \<Rightarrow>
               (case fst (getUserById (userId p) s) of
                  Inr (Some u) \<Rightarrow> if isActive u then Some p else None
                | _ \<Rightarrow> None)), s)"
  by (simp add: validateAccessToken_def action_defs getUserById_def findOne_def
      split: sum.splits option.splits)

text \<open>
  Claim C7. \<open>validateAccessToken\<close> never throws and never writes: for every token
  it returns, with the state as it was. It returns the claims of the token exactly when
  the verification of signature, expiry, issuer and audience succeeds and the store
  returns, for the \<open>userId\<close> of the claims, an identity with \<open>isActive\<close>. A failed
  verification, a missing identity, an inactive identity and a lookup that throws all
  give null.
\<close>

theorem validateAccessToken_gate:
  "(\<exists>r. validateAccessToken e now tok s = (Inr r, s)) \<and>
   (validateAccessToken e now tok s = (Inr (Some p), s) \<longleftrightarrow>
      verifyAccessToken e now tok = Inr p \<and>
      (\<exists>u. getUserById (userId p) s = (Inr (Some u), s) \<and> isActive u)) \<and>
   (verifyAccessToken e now tok = Inl err \<longrightarrow>
      validateAccessToken e now tok s = (Inr None, s)) \<and>
   (verifyAccessToken e now tok = Inr p \<and> getUserById (userId p) s = (Inr None, s) \<longrightarrow>
      validateAccessToken e now tok s = (Inr None, s)) \<and>
   (verifyAccessToken e now tok = Inr p \<and>
      getUserById (userId p) s = (Inr (Some u), s) \<and> \<not> isActive u \<longrightarrow>
      validateAccessToken e now tok s = (Inr None, s)) \<and>
   (verifyAccessToken e now tok = Inr p \<and>
      getUserById (userId p) s = (Inl err', s) \<longrightarrow>
      validateAccessToken e now tok s = (Inr None, s))"
proof -
  have total: "\<exists>r. validateAccessToken e now tok s = (Inr r, s)"
    by (simp add: validateAccessToken_result)
  have snd_get: "snd (getUserById i s) = s" for i
    by (simp add: getUserById_def findOne_def split: option.splits)
  have get: "getUserById i s = (r, s) \<longleftrightarrow> fst (getUserById i s) = r" for i r
    using snd_get [of i] by (cases "getUserById i s") auto
  have iff: "validateAccessToken e now tok s = (Inr (Some p), s) \<longleftrightarrow>
      verifyAccessToken e now tok = Inr p \<and>
      (\<exists>u. getUserById (userId p) s = (Inr (Some u), s) \<and> isActive u)"
    unfolding get
    by (auto simp: validateAccessToken_result split: sum.splits option.splits)
  show ?thesis
    apply (intro conjI impI total iff)
    apply (simp_all add: validateAccessToken_result get)
    done
qed


theorem validateAccessToken_gate_witness:
  "verifyAccessToken default_env 5000
     (generateAccessToken default_env 0 (tokenPayload ''u1'' ''alice@x.com'' ''user'')) =
     Inr \<lparr>userId = ''u1'', email = Some ''alice@x.com'', role = Some ''user'',
          tokenVersion = None, iat = Some 0, exp = None,
          iss = Some ''quote-service'', aud = Some ''quote-service-users''\<rparr> \<and>
   getUserById ''u1'' example_state = (Inr (Some alice), example_state) \<and>
   isActive alice \<and>
   validateAccessToken default_env 5000
     (generateAccessToken default_env 0 (tokenPayload ''u1'' ''alice@x.com'' ''user''))
     example_state =
     (Inr (Some \<lparr>userId = ''u1'', email = Some ''alice@x.com'', role = Some ''user'',
          tokenVersion = None, iat = Some 0, exp = None,
          iss = Some ''quote-service'', aud = Some ''quote-service-users''\<rparr>),
      example_state)"
proof -
  let ?p = "\<lparr>userId = ''u1'', email = Some ''alice@x.com'', role = Some ''user'',
          tokenVersion = None, iat = Some 0, exp = None,
          iss = Some ''quote-service'', aud = Some ''quote-service-users''\<rparr>"
  have v: "verifyAccessToken default_env 5000
     (generateAccessToken default_env 0 (tokenPayload ''u1'' ''alice@x.com'' ''user'')) =
     Inr ?p"
    using access_round_trip [of default_env 5000 0 "''u1''" "''alice@x.com''" "''user''"]
    by (simp add: tokenPayload_def)
  have g: "getUserById ''u1'' example_state = (Inr (Some alice), example_state)"
    "isActive alice"
    by (simp_all add: getUserById_def findOne_def example_defs)
  from validateAccessToken_gate [where e = default_env and now = 5000
      and tok = "generateAccessToken default_env 0 (tokenPayload ''u1'' ''alice@x.com'' ''user'')"
      and s = example_state and p = ?p] v g
  show ?thesis by auto
qed

lemma validateAccessToken_examples:
  "validateAccessToken default_env 5000 (NotJwt ''abc'') example_state =
     (Inr None, example_state)"
  "validateAccessToken default_env 5000
     (generateRefreshToken default_env 0 (refreshTokenPayload ''u1'' 0)) example_state =
     (Inr None, example_state)"
  "validateAccessToken default_env 5000
     (generateAccessToken default_env 0 (tokenPayload ''u2'' ''bob@x.com'' ''user''))
     example_state = (Inr None, example_state)"
  "validateAccessToken default_env 5000
     (generateAccessToken default_env 0 (tokenPayload ''u1'' ''alice@x.com'' ''user''))
     (example_state\<lparr>users := [alice\<lparr>isActive := False\<rparr>]\<rparr>) =
     (Inr None, example_state\<lparr>users := [alice\<lparr>isActive := False\<rparr>]\<rparr>)"
  "validateAccessToken default_env 5000
     (generateAccessToken default_env 0 (tokenPayload ''u1'' ''alice@x.com'' ''user''))
     (example_state\<lparr>dbError := Some ''connection lost''\<rparr>) =
     (Inr None, example_state\<lparr>dbError := Some ''connection lost''\<rparr>)"
  by (simp_all add: validateAccessToken_result jwt_defs tokenPayload_def
      refreshTokenPayload_def getUserById_def findOne_def example_defs default_env_def
      ACCESS_TOKEN_SECRET_def REFRESH_TOKEN_SECRET_def or_default_def)

subsection \<open>Changing the password\<close>

lemma changePassword_True:
  assumes "changePassword pu now i cur new s = (Inr True, s1)"
  shows "s1 = s\<lparr>users := findOneAndUpdate (\<lambda>x. id' x = i)
                  (\<lambda>d. d\<lparr>password := hashPassword pu new, updatedAt := now\<rparr>) (users s),
               log := log s @ [Info ''User updated successfully'' (Some i),
                               Info ''Password changed successfully'' (Some i)]\<rparr>"
    and "dbError s = None"
    and "\<exists>u. find (\<lambda>x. id' x = i) (users s) = Some u \<and> comparePassword pu cur (password u)"
  using assms
  by (auto simp: changePassword_def service_defs action_defs split: option.splits if_splits)

lemma refreshToken_frame:
  assumes "tokenVersions s1 = tokenVersions s" "dbError s1 = dbError s"
    "\<And>j. map_option (\<lambda>u. (id' u, email u, role u, isActive u)) (find (\<lambda>x. id' x = j) (users s1)) =
          map_option (\<lambda>u. (id' u, email u, role u, isActive u)) (find (\<lambda>x. id' x = j) (users s))"
  shows "fst (refreshToken e t tok s1) = fst (refreshToken e t tok s)"
proof (cases "verifyRefreshToken e t tok")
  case (Inl a)
  then show ?thesis
    by (simp add: refreshToken_def refreshToken_try_def action_defs)
next
  case (Inr p)
  have v: "getTokenVersion s1 (userId p) = getTokenVersion s (userId p)"
    using assms(1) by (simp add: getTokenVersion_def)
  show ?thesis
  proof (cases "dbError s")
    case (Some m)
    then show ?thesis using assms(2) Inr v
      by (simp add: refreshToken_def refreshToken_try_def action_defs getUserById_def findOne_def)
  next
    case None
    from assms(3) [of "userId p"] show ?thesis
      using assms(2) Inr v None
      by (cases "find (\<lambda>x. id' x = userId p) (users s1)"; cases "find (\<lambda>x. id' x = userId p) (users s)")
         (auto simp add: refreshToken_def refreshToken_try_def action_defs getUserById_def findOne_def)
  qed
qed


text \<open>
  Claim C9. A successful \<open>changePassword\<close> changes, in the collection, only the
  password digest and \<open>updatedAt\<close> of the first document with that id. The revocation
  registry is untouched: every generation is what it was, and every refresh call returns
  after the change what it would have returned before. In particular a refresh token
  stamped with the current generation of an existing, active identity still yields a new
  access token after that identity's password has changed.
\<close>

theorem changePassword_keeps_refresh_tokens:
  assumes "changePassword pu now i cur new s = (Inr True, s1)"
  shows "tokenVersions s1 = tokenVersions s \<and>
     users s1 = findOneAndUpdate (\<lambda>x. id' x = i)
        (\<lambda>d. d\<lparr>password := hashPassword pu new, updatedAt := now\<rparr>) (users s) \<and>
     (\<forall>j. getTokenVersion s1 j = getTokenVersion s j) \<and>
     (\<forall>e t tok. fst (refreshToken e t tok s1) = fst (refreshToken e t tok s)) \<and>
     (\<forall>e t t0 u. getUserById i s = (Inr (Some u), s) \<and> isActive u \<longrightarrow>
        fst (refreshToken e t
              (generateRefreshToken e t0 (refreshTokenPayload i (getTokenVersion s i))) s1) =
          Inr \<lparr>accessToken =
                 generateAccessToken e t (tokenPayload (id' u) (email u) (role u)),
               expiresIn = getAccessTokenExpiryTime e\<rparr>)"
proof -
  note s1 = changePassword_True(1) [OF assms]
  have tv: "tokenVersions s1 = tokenVersions s" and db: "dbError s1 = dbError s"
    and us: "users s1 = findOneAndUpdate (\<lambda>x. id' x = i)
        (\<lambda>d. d\<lparr>password := hashPassword pu new, updatedAt := now\<rparr>) (users s)"
    by (simp_all add: s1)
  have gv: "getTokenVersion s1 j = getTokenVersion s j" for j
    using tv by (simp add: getTokenVersion_def)
  have view: "map_option (\<lambda>u. (id' u, email u, role u, isActive u))
        (find (\<lambda>x. id' x = j) (users s1)) =
      map_option (\<lambda>u. (id' u, email u, role u, isActive u))
        (find (\<lambda>x. id' x = j) (users s))" for j
    unfolding us
    by (subst find_update_id) (auto simp: option.map_comp comp_def)
  have frame: "fst (refreshToken e t tok s1) = fst (refreshToken e t tok s)" for e t tok
    by (rule refreshToken_frame [OF tv db view])
  have old: "fst (refreshToken e t
              (generateRefreshToken e t0 (refreshTokenPayload i (getTokenVersion s i))) s1) =
          Inr \<lparr>accessToken =
                 generateAccessToken e t (tokenPayload (id' u) (email u) (role u)),
               expiresIn = getAccessTokenExpiryTime e\<rparr>"
    if "getUserById i s = (Inr (Some u), s) \<and> isActive u" for e t t0 u
    unfolding frame using refreshToken_current [of i s u e t t0] that by simp
  from tv us gv frame old show ?thesis by blast
qed

theorem changePassword_keeps_refresh_tokens_witness:
  "changePassword example_hasher 3000 ''u1'' ''correct horse'' ''new password''
     example_state =
     (Inr True,
      example_state\<lparr>users := [alice\<lparr>password := ''digest:new password'', updatedAt := 3000\<rparr>],
        log := [Info ''User updated successfully'' (Some ''u1''),
                Info ''Password changed successfully'' (Some ''u1'')]\<rparr>) \<and>
   getUserById ''u1'' example_state = (Inr (Some alice), example_state) \<and> isActive alice \<and>
   fst (refreshToken default_env 4000
          (generateRefreshToken default_env 1000 (refreshTokenPayload ''u1'' 0))
          (example_state\<lparr>users := [alice\<lparr>password := ''digest:new password'', updatedAt := 3000\<rparr>],
             log := [Info ''User updated successfully'' (Some ''u1''),
                     Info ''Password changed successfully'' (Some ''u1'')]\<rparr>)) =
     Inr \<lparr>accessToken =
            generateAccessToken default_env 4000
              (tokenPayload ''u1'' ''alice@x.com'' ''user''),
          expiresIn = Some 900\<rparr>"
proof -
  let ?s1 = "example_state\<lparr>users := [alice\<lparr>password := ''digest:new password'', updatedAt := 3000\<rparr>],
        log := [Info ''User updated successfully'' (Some ''u1''),
                Info ''Password changed successfully'' (Some ''u1'')]\<rparr>"
  have h: "changePassword example_hasher 3000 ''u1'' ''correct horse'' ''new password''
     example_state = (Inr True, ?s1)"
    by (simp add: changePassword_def service_defs action_defs example_defs)
  have g: "getUserById ''u1'' example_state = (Inr (Some alice), example_state)"
    "isActive alice"
    by (simp_all add: getUserById_def findOne_def example_defs)
  have a: "id' alice = ''u1''" "email alice = ''alice@x.com''" "role alice = ''user''"
    "getTokenVersion example_state ''u1'' = 0"
    by (simp_all add: example_defs getTokenVersion_def)
  from changePassword_keeps_refresh_tokens [OF h] g
  have "fst (refreshToken default_env 4000
          (generateRefreshToken default_env 1000
             (refreshTokenPayload ''u1'' (getTokenVersion example_state ''u1''))) ?s1) =
     Inr \<lparr>accessToken =
            generateAccessToken default_env 4000
              (tokenPayload (id' alice) (email alice) (role alice)),
          expiresIn = getAccessTokenExpiryTime default_env\<rparr>"
    by blast
  with h g a default_expiry_time show ?thesis by simp
qed

end
